theory Spec2Isabelle
  imports Complex_Main
begin

section \<open>Arrays, errors and the array primitives the code calls\<close>

text \<open>
  The code works on two-dimensional arrays of floating-point numbers.  An array is a list of
  rows, the outer list running over the leading axis; numbers are exact reals, so every
  statement below is about the arithmetic the code writes down, not about rounding,
  infinities or NaN.
  A list of rows cannot tell a \<open>0 \<times> B\<close> array from a \<open>0 \<times> B'\<close> one: the theorems assume
  a non-empty batch and the documented shapes, and say nothing about other shapes (where
  the array library broadcasts or raises).  The errors that are branches of the model are
  those a call of the documented shapes can meet: an index into an empty time axis, an
  array of the wrong rank or of a negative dimension, a division by zero.
\<close>

type_synonym vec = "real list"
type_synonym mat = "real list list"

datatype error = IndexError | TypeError | ValueError | ZeroDivisionError

text \<open>What \<open>jnp.array\<close> makes of a Python list of rows: the rank is lost when the list is empty.\<close>

datatype ndarray = Arr1 vec | Arr2 mat

text \<open>\<open>lambda_\<close> is a scalar or an array of the shape of the array it is multiplied with.\<close>

datatype lam = Scalar real | PerStep mat

definition has_shape :: "nat \<Rightarrow> nat \<Rightarrow> mat \<Rightarrow> bool" where
  "has_shape m n xs \<longleftrightarrow> length xs = m \<and> list_all (\<lambda>row. length row = n) xs"

fun lam_shape :: "nat \<Rightarrow> nat \<Rightarrow> lam \<Rightarrow> bool" where
  "lam_shape m n (Scalar l) = True"
| "lam_shape m n (PerStep ls) = has_shape m n ls"

text \<open>The entry of \<open>lambda_\<close> at row \<open>i\<close>, column \<open>j\<close> once broadcast.\<close>

fun lam_at :: "lam \<Rightarrow> nat \<Rightarrow> nat \<Rightarrow> real" where
  "lam_at (Scalar l) i j = l"
| "lam_at (PerStep ls) i j = ls ! i ! j"

text \<open>\<open>x.shape[1]\<close>.\<close>

definition shape1 :: "mat \<Rightarrow> nat" where
  "shape1 xs = (case xs of [] \<Rightarrow> 0 | row # _ \<Rightarrow> length row)"

text \<open>\<open>jnp.swapaxes(x, 0, 1)\<close>.\<close>

definition swapaxes :: "mat \<Rightarrow> mat" where
  "swapaxes xs = map (\<lambda>j. map (\<lambda>row. row ! j) xs) [0..<shape1 xs]"

text \<open>Elementwise arithmetic on rows and on arrays of one shape.\<close>

definition vadd :: "vec \<Rightarrow> vec \<Rightarrow> vec" where
  "vadd xs ys = map2 (+) xs ys"

definition vsub :: "vec \<Rightarrow> vec \<Rightarrow> vec" where
  "vsub xs ys = map2 (-) xs ys"

definition vmul :: "vec \<Rightarrow> vec \<Rightarrow> vec" where
  "vmul xs ys = map2 (*) xs ys"

definition madd :: "mat \<Rightarrow> mat \<Rightarrow> mat" where
  "madd xs ys = map2 vadd xs ys"

definition msub :: "mat \<Rightarrow> mat \<Rightarrow> mat" where
  "msub xs ys = map2 vsub xs ys"

definition mmul :: "mat \<Rightarrow> mat \<Rightarrow> mat" where
  "mmul xs ys = map2 vmul xs ys"

text \<open>\<open>jnp.ones_like(x) * lambda_\<close>.\<close>

fun ones_like_times :: "mat \<Rightarrow> lam \<Rightarrow> mat" where
  "ones_like_times x (Scalar l) = map (map (\<lambda>_. 1 * l)) x"
| "ones_like_times x (PerStep ls) = mmul (map (map (\<lambda>_. 1)) x) ls"

text \<open>\<open>jax.lax.stop_gradient\<close> changes no number; \<open>jax.lax.select\<close> on a boolean.\<close>

definition stop_gradient :: "'a \<Rightarrow> 'a" where
  "stop_gradient x = x"

definition select :: "bool \<Rightarrow> 'a \<Rightarrow> 'a \<Rightarrow> 'a" where
  "select p on_true on_false = (if p then on_true else on_false)"

text \<open>
  \<open>jax.lax.scan(f, init, xs, reverse=True)\<close>: the body runs from the last element of \<open>xs\<close>
  to the first, and the outputs stay aligned with the inputs.
\<close>

fun scan_reverse :: "('c \<Rightarrow> 'x \<Rightarrow> 'c \<times> 'y) \<Rightarrow> 'c \<Rightarrow> 'x list \<Rightarrow> 'c \<times> 'y list" where
  "scan_reverse f init [] = (init, [])"
| "scan_reverse f init (x # xs) =
     (case scan_reverse f init xs of (carry, ys) \<Rightarrow>
        (case f carry x of (carry', y) \<Rightarrow> (carry', y # ys)))"

text \<open>Python's \<open>[x] * k\<close> (empty when \<open>k \<le> 0\<close>) and \<open>xs[s:]\<close> for any integer \<open>s\<close>.\<close>

definition py_repeat :: "'a \<Rightarrow> int \<Rightarrow> 'a list" where
  "py_repeat x k = replicate (nat k) x"

definition slice_from :: "'a list \<Rightarrow> int \<Rightarrow> 'a list" where
  "slice_from xs s =
     (if s < 0 then drop (nat (max 0 (int (length xs) + s))) xs else drop (nat s) xs)"

text \<open>\<open>xs[i : i + k]\<close> for \<open>i \<ge> 0\<close>.\<close>

definition slice :: "'a list \<Rightarrow> nat \<Rightarrow> nat \<Rightarrow> 'a list" where
  "slice xs i k = take k (drop i xs)"

definition jnp_array :: "vec list \<Rightarrow> ndarray" where
  "jnp_array rows = (if rows = [] then Arr1 [] else Arr2 rows)"

text \<open>\<open>jnp.zeros((k, b))\<close> and \<open>jnp.ones((k, b))\<close>: a negative dimension is refused.\<close>

definition jnp_full :: "int \<Rightarrow> nat \<Rightarrow> real \<Rightarrow> error + mat" where
  "jnp_full k b c = (if k < 0 then Inl ValueError else Inr (replicate (nat k) (replicate b c)))"

text \<open>
  \<open>jnp.concatenate([x, y], axis=0)\<close> with \<open>x\<close> two-dimensional: arrays of different rank
  are refused (rows of one length are joined).
\<close>

fun concatenate :: "mat \<Rightarrow> ndarray \<Rightarrow> error + mat" where
  "concatenate x (Arr2 y) = Inr (x @ y)"
| "concatenate x (Arr1 y) = Inl TypeError"

definition bind :: "error + 'a \<Rightarrow> ('a \<Rightarrow> error + 'b) \<Rightarrow> error + 'b" where
  "bind m f = (case m of Inl e \<Rightarrow> Inl e | Inr x \<Rightarrow> f x)"

section \<open>Truncated generalized advantage estimation\<close>

text \<open>
  The arrays are real-valued, so \<open>chex.assert_type\<close> holds and is not a branch.  An array
  \<open>lambda_\<close> is multiplied with \<open>discount_t\<close> after the axes are swapped: it is read in
  time-leading layout whatever \<open>time_major\<close> says.
\<close>

definition gae_body :: "vec \<Rightarrow> vec \<times> vec \<times> vec \<Rightarrow> vec \<times> vec" where
  "gae_body acc xs =
     (case xs of (deltas, discounts, lambda') \<Rightarrow>
        (let acc' = vadd deltas (vmul (vmul discounts lambda') acc) in (acc', acc')))"

definition batch_truncated_generalized_advantage_estimation ::
  "mat \<Rightarrow> mat \<Rightarrow> lam \<Rightarrow> mat \<Rightarrow> bool \<Rightarrow> bool \<Rightarrow> mat \<times> mat" where
  "batch_truncated_generalized_advantage_estimation r_t discount_t lambda' values
       stop_target_gradients time_major =
     (let batch_size = (if \<not> time_major then length r_t else shape1 r_t);
          r_t = (if \<not> time_major then swapaxes r_t else r_t);
          discount_t = (if \<not> time_major then swapaxes discount_t else discount_t);
          values = (if \<not> time_major then swapaxes values else values);
          lambda' = ones_like_times discount_t lambda';
          delta_t = msub (madd r_t (mmul discount_t (drop 1 values))) (butlast values);
          advantage_t = snd (scan_reverse gae_body (replicate batch_size 0)
                               (zip delta_t (zip discount_t lambda')));
          target_values = madd (butlast values) advantage_t;
          advantage_t = (if \<not> time_major then swapaxes advantage_t else advantage_t);
          target_values = (if \<not> time_major then swapaxes target_values else target_values);
          advantage_t =
            (if stop_target_gradients then stop_gradient advantage_t else advantage_t);
          target_values =
            (if stop_target_gradients then stop_gradient target_values else target_values)
      in (advantage_t, target_values))"

section \<open>N-step bootstrapped returns\<close>

text \<open>\<open>1.0 - lambda_\<close>.\<close>

definition one_minus :: "mat \<Rightarrow> mat" where
  "one_minus x = map (map (\<lambda>l. 1 - l)) x"

text \<open>
  The loop \<open>for i in reversed(range(n))\<close>: \<open>n_step_loop k\<close> runs the iterations
  \<open>i = k - 1, \<dots>, 0\<close>.
\<close>

fun n_step_loop :: "nat \<Rightarrow> nat \<Rightarrow> mat \<Rightarrow> mat \<Rightarrow> mat \<Rightarrow> mat \<Rightarrow> mat \<Rightarrow> mat" where
  "n_step_loop 0 seq_len r_t discount_t lambda_t v_t targets = targets"
| "n_step_loop (Suc i) seq_len r_t discount_t lambda_t v_t targets =
     (let r' = slice r_t i seq_len;
          discount' = slice discount_t i seq_len;
          lambda' = slice lambda_t i seq_len;
          v' = slice v_t i seq_len
      in n_step_loop i seq_len r_t discount_t lambda_t v_t
           (madd r' (mmul discount' (madd (mmul (one_minus lambda') v') (mmul lambda' targets)))))"

text \<open>
  \<open>v_t[-1]\<close> needs a non-empty time axis.  \<open>[v_t[-1]] * k\<close> is a Python list, and
  \<open>jnp.array\<close> of the empty list has rank one.
\<close>

definition batch_n_step_bootstrapped_returns ::
  "mat \<Rightarrow> mat \<Rightarrow> mat \<Rightarrow> int \<Rightarrow> lam \<Rightarrow> bool \<Rightarrow> error + mat" where
  "batch_n_step_bootstrapped_returns r_t discount_t v_t n lambda_t stop_target_gradients =
     (let r_t = swapaxes r_t;
          discount_t = swapaxes discount_t;
          v_t = swapaxes v_t;
          seq_len = length r_t;
          batch_size = shape1 r_t;
          lambda_t = ones_like_times discount_t lambda_t;
          pad_size = min (n - 1) (int seq_len)
      in if v_t = [] then Inl IndexError
         else
           bind (concatenate (slice_from v_t (n - 1))
                   (jnp_array (py_repeat (last v_t) pad_size))) (\<lambda>targets.
           bind (jnp_full (n - 1) batch_size 0) (\<lambda>r_pad.
           bind (jnp_full (n - 1) batch_size 1) (\<lambda>discount_pad.
           bind (jnp_full (n - 1) batch_size 1) (\<lambda>lambda_pad.
           bind (concatenate v_t (jnp_array (py_repeat (last v_t) (n - 1)))) (\<lambda>v_t.
             (let r_t = r_t @ r_pad;
                  discount_t = discount_t @ discount_pad;
                  lambda_t = lambda_t @ lambda_pad;
                  targets = n_step_loop (nat n) seq_len r_t discount_t lambda_t v_t targets;
                  targets = swapaxes targets
              in Inr (select stop_target_gradients (stop_gradient targets) targets))))))))"

text \<open>
  The equation of the docstring, which the returns are specified by, on one batch row:
  \<open>G t = r (t + 1) + d (t + 1) * ((1 - \<lambda> (t + 1)) * v (t + 1) + \<lambda> (t + 1) * G (t + 1))\<close>,
  iterated \<open>k\<close> times from column \<open>j\<close>, with the raw bootstrap value \<open>boot\<close> at the horizon.
  It is what the loop is compared with, not a part of the code.  The sequences are
  functions of the column, so that padding is a case distinction.
\<close>

fun n_step_return ::
  "(nat \<Rightarrow> real) \<Rightarrow> (nat \<Rightarrow> real) \<Rightarrow> (nat \<Rightarrow> real) \<Rightarrow> (nat \<Rightarrow> real) \<Rightarrow> real \<Rightarrow> nat \<Rightarrow> nat \<Rightarrow> real"
  where
  "n_step_return r d l v boot 0 j = boot"
| "n_step_return r d l v boot (Suc k) j =
     r j + d j * ((1 - l j) * v j + l j * n_step_return r d l v boot k (Suc j))"

text \<open>A row padded past its \<open>T\<close> columns with a constant, and with its own last entry.\<close>

definition padded :: "nat \<Rightarrow> real \<Rightarrow> (nat \<Rightarrow> real) \<Rightarrow> nat \<Rightarrow> real" where
  "padded T c f j = (if j < T then f j else c)"

definition padded_last :: "nat \<Rightarrow> (nat \<Rightarrow> real) \<Rightarrow> nat \<Rightarrow> real" where
  "padded_last T f j = (if j < T then f j else f (T - 1))"

section \<open>Generalized off-policy returns from Q and V\<close>

definition off_policy_body :: "vec \<Rightarrow> vec \<times> vec \<times> vec \<times> vec \<times> vec \<Rightarrow> vec \<times> vec" where
  "off_policy_body acc xs =
     (case xs of (reward, discount, c, v, q) \<Rightarrow>
        (let acc' = vadd reward (vmul discount (vadd (vsub v (vmul c q)) (vmul c acc)))
         in (acc', acc')))"

text \<open>\<open>r_t[-1]\<close>, \<open>discount_t[-1]\<close> and \<open>v_t[-1]\<close> need a non-empty time axis.\<close>

definition batch_general_off_policy_returns_from_q_and_v ::
  "mat \<Rightarrow> mat \<Rightarrow> mat \<Rightarrow> mat \<Rightarrow> mat \<Rightarrow> bool \<Rightarrow> error + mat" where
  "batch_general_off_policy_returns_from_q_and_v q_t v_t r_t discount_t c_t
       stop_target_gradients =
     (let q_t = swapaxes q_t;
          v_t = swapaxes v_t;
          r_t = swapaxes r_t;
          discount_t = swapaxes discount_t;
          c_t = swapaxes c_t
      in if r_t = [] \<or> discount_t = [] \<or> v_t = [] then Inl IndexError
         else
           (let g = vadd (last r_t) (vmul (last discount_t) (last v_t));
                returns = snd (scan_reverse off_policy_body g
                                 (zip (butlast r_t) (zip (butlast discount_t)
                                    (zip c_t (zip (butlast v_t) q_t)))));
                returns = returns @ [g];
                returns = swapaxes returns
            in Inr (select stop_target_gradients (stop_gradient returns) returns)))"

section \<open>Continuous retrace\<close>

text \<open>\<open>x * lambda_\<close> for a scalar or an array \<open>lambda_\<close> of the shape of \<open>x\<close>.\<close>

fun times_lam :: "mat \<Rightarrow> lam \<Rightarrow> mat" where
  "times_lam x (Scalar l) = map (map (\<lambda>e. e * l)) x"
| "times_lam x (PerStep ls) = mmul x ls"

definition batch_retrace_continuous ::
  "mat \<Rightarrow> mat \<Rightarrow> mat \<Rightarrow> mat \<Rightarrow> mat \<Rightarrow> mat \<Rightarrow> lam \<Rightarrow> bool \<Rightarrow> error + mat" where
  "batch_retrace_continuous q_tm1 q_t v_t r_t discount_t log_rhos lambda'
       stop_target_gradients =
     (let c_t = times_lam (map (map (\<lambda>x. min 1 (exp x))) log_rhos) lambda'
      in bind (batch_general_off_policy_returns_from_q_and_v q_t v_t r_t discount_t c_t False)
           (\<lambda>target_tm1.
              (let target_tm1 =
                     select stop_target_gradients (stop_gradient target_tm1) target_tm1
               in Inr (msub target_tm1 q_tm1))))"

section \<open>Total timestep checker\<close>

text \<open>
  The two groups of the configuration that \<open>check_total_timesteps\<close> reads, as extensible
  records: every other setting lives in the \<open>more\<close> part, and the settings read are
  integers (\<open>None\<close> where the configuration leaves one out).  \<open>n_devices\<close> is the length of
  \<open>jax.devices()\<close>.  The function mutates the configuration, prints a notice in the second
  branch, and returns the configuration.
\<close>

record arch_config =
  total_timesteps :: "int option"
  num_updates :: "int option"
  num_envs :: int

record system_config =
  rollout_length :: int
  update_batch_size :: int

record ('a, 's) config =
  arch :: "'a arch_config_scheme"
  system :: "'s system_config_scheme"

datatype notice = ChangingNumUpdates int

definition floordiv :: "int \<Rightarrow> int \<Rightarrow> error + int" where
  "floordiv a b = (if b = 0 then Inl ZeroDivisionError else Inr (a div b))"

definition check_total_timesteps ::
  "nat \<Rightarrow> ('a, 's, 'c) config_scheme \<Rightarrow> error + (('a, 's, 'c) config_scheme \<times> notice list)" where
  "check_total_timesteps n_devices config =
     (case total_timesteps (arch config) of
        None \<Rightarrow>
          (case num_updates (arch config) of
             None \<Rightarrow> Inl TypeError
           | Some u \<Rightarrow>
               Inr (config\<lparr>arch := (arch config)\<lparr>total_timesteps :=
                      Some (int n_devices * u * rollout_length (system config)
                            * update_batch_size (system config) * num_envs (arch config))\<rparr>\<rparr>,
                    []))
      | Some t \<Rightarrow>
          bind (floordiv t (rollout_length (system config))) (\<lambda>a.
          bind (floordiv a (update_batch_size (system config))) (\<lambda>b.
          bind (floordiv b (num_envs (arch config))) (\<lambda>c.
          bind (floordiv c (int n_devices)) (\<lambda>u.
            Inr (config\<lparr>arch := (arch config)\<lparr>num_updates := Some u\<rparr>\<rparr>,
                 [ChangingNumUpdates u]))))))"

section \<open>Shapes and entries of the array primitives\<close>

lemma has_shape_iff:
  "has_shape m n xs \<longleftrightarrow> length xs = m \<and> (\<forall>i<m. length (xs ! i) = n)"
  by (auto simp: has_shape_def list_all_length)

lemma has_shape_length: "has_shape m n xs \<Longrightarrow> length xs = m"
  by (simp add: has_shape_iff)

lemma has_shape_row: "has_shape m n xs \<Longrightarrow> i < m \<Longrightarrow> length (xs ! i) = n"
  by (simp add: has_shape_iff)

lemma shape1_has_shape: "has_shape m n xs \<Longrightarrow> 0 < m \<Longrightarrow> shape1 xs = n"
  by (cases xs) (auto simp: has_shape_def shape1_def)

lemma swapaxes_shape: "has_shape m n xs \<Longrightarrow> 0 < m \<Longrightarrow> has_shape n m (swapaxes xs)"
  using shape1_has_shape [of m n xs] by (simp add: has_shape_iff swapaxes_def)

lemma swapaxes_nth:
  "has_shape m n xs \<Longrightarrow> i < m \<Longrightarrow> j < n \<Longrightarrow> swapaxes xs ! j ! i = xs ! i ! j"
  using shape1_has_shape [of m n xs] by (simp add: swapaxes_def has_shape_length)

lemma mat_eqI:
  assumes "has_shape m n xs" "has_shape m n ys"
    and "\<And>i j. i < m \<Longrightarrow> j < n \<Longrightarrow> xs ! i ! j = ys ! i ! j"
  shows "xs = ys"
proof (rule nth_equalityI)
  show "length xs = length ys" using assms(1,2) by (simp add: has_shape_iff)
next
  fix i assume i: "i < length xs"
  then have im: "i < m" using assms(1) by (simp add: has_shape_iff)
  show "xs ! i = ys ! i"
  proof (rule nth_equalityI)
    show "length (xs ! i) = length (ys ! i)"
      using assms(1,2) im by (simp add: has_shape_iff)
  next
    fix j assume "j < length (xs ! i)"
    then have "j < n" using assms(1) im by (simp add: has_shape_iff)
    then show "xs ! i ! j = ys ! i ! j" using assms(3) im by simp
  qed
qed

lemma swapaxes_swapaxes:
  assumes "has_shape m n xs" "0 < m" "0 < n"
  shows "swapaxes (swapaxes xs) = xs"
proof (rule mat_eqI [of m n])
  have s: "has_shape n m (swapaxes xs)" using assms by (simp add: swapaxes_shape)
  show "has_shape m n (swapaxes (swapaxes xs))" using s assms by (simp add: swapaxes_shape)
  show "has_shape m n xs" by fact
  fix i j assume "i < m" "j < n"
  then show "swapaxes (swapaxes xs) ! i ! j = xs ! i ! j"
    using s assms by (simp add: swapaxes_nth)
qed

lemma vadd_length: "length (vadd xs ys) = min (length xs) (length ys)"
  by (simp add: vadd_def)
lemma vsub_length: "length (vsub xs ys) = min (length xs) (length ys)"
  by (simp add: vsub_def)
lemma vmul_length: "length (vmul xs ys) = min (length xs) (length ys)"
  by (simp add: vmul_def)

lemma vadd_nth: "i < length xs \<Longrightarrow> i < length ys \<Longrightarrow> vadd xs ys ! i = xs ! i + ys ! i"
  by (simp add: vadd_def)
lemma vsub_nth: "i < length xs \<Longrightarrow> i < length ys \<Longrightarrow> vsub xs ys ! i = xs ! i - ys ! i"
  by (simp add: vsub_def)
lemma vmul_nth: "i < length xs \<Longrightarrow> i < length ys \<Longrightarrow> vmul xs ys ! i = xs ! i * ys ! i"
  by (simp add: vmul_def)

lemma madd_shape: "has_shape m n xs \<Longrightarrow> has_shape m n ys \<Longrightarrow> has_shape m n (madd xs ys)"
  by (simp add: has_shape_iff madd_def vadd_length)
lemma msub_shape: "has_shape m n xs \<Longrightarrow> has_shape m n ys \<Longrightarrow> has_shape m n (msub xs ys)"
  by (simp add: has_shape_iff msub_def vsub_length)
lemma mmul_shape: "has_shape m n xs \<Longrightarrow> has_shape m n ys \<Longrightarrow> has_shape m n (mmul xs ys)"
  by (simp add: has_shape_iff mmul_def vmul_length)

lemma madd_nth:
  "has_shape m n xs \<Longrightarrow> has_shape m n ys \<Longrightarrow> i < m \<Longrightarrow> j < n \<Longrightarrow>
   madd xs ys ! i ! j = xs ! i ! j + ys ! i ! j"
  by (simp add: has_shape_iff madd_def vadd_nth)
lemma msub_nth:
  "has_shape m n xs \<Longrightarrow> has_shape m n ys \<Longrightarrow> i < m \<Longrightarrow> j < n \<Longrightarrow>
   msub xs ys ! i ! j = xs ! i ! j - ys ! i ! j"
  by (simp add: has_shape_iff msub_def vsub_nth)
lemma mmul_nth:
  "has_shape m n xs \<Longrightarrow> has_shape m n ys \<Longrightarrow> i < m \<Longrightarrow> j < n \<Longrightarrow>
   mmul xs ys ! i ! j = xs ! i ! j * ys ! i ! j"
  by (simp add: has_shape_iff mmul_def vmul_nth)

lemma ones_like_times_shape:
  "has_shape m n x \<Longrightarrow> lam_shape m n l \<Longrightarrow> has_shape m n (ones_like_times x l)"
  by (cases l) (simp_all add: has_shape_iff mmul_def vmul_length)

lemma ones_like_times_nth:
  "has_shape m n x \<Longrightarrow> lam_shape m n l \<Longrightarrow> i < m \<Longrightarrow> j < n \<Longrightarrow>
   ones_like_times x l ! i ! j = lam_at l i j"
  by (cases l) (simp_all add: has_shape_iff mmul_def vmul_nth)

lemma drop1_shape: "has_shape (Suc m) n xs \<Longrightarrow> has_shape m n (drop 1 xs)"
  by (simp add: has_shape_iff)
lemma butlast_shape: "has_shape (Suc m) n xs \<Longrightarrow> has_shape m n (butlast xs)"
  by (simp add: has_shape_iff nth_butlast)

subsection \<open>Reverse scans whose output is the carry\<close>

lemma scan_reverse_length:
  "length (snd (scan_reverse f init xs)) = length xs"
  by (induction xs) (auto split: prod.splits)

lemma scan_reverse_carry:
  assumes "\<And>c x. f c x = (h c x, h c x)"
  shows "fst (scan_reverse f init xs) =
           (case snd (scan_reverse f init xs) of [] \<Rightarrow> init | y # _ \<Rightarrow> y)"
  by (induction xs) (auto simp: assms split: prod.splits)

lemma scan_reverse_nth:
  assumes "\<And>c x. f c x = (h c x, h c x)"
  shows "t < length xs \<Longrightarrow>
         snd (scan_reverse f init xs) ! t =
           h (if Suc t < length xs then snd (scan_reverse f init xs) ! Suc t else init) (xs ! t)"
proof (induction xs arbitrary: t)
  case Nil
  then show ?case by simp
next
  case (Cons x xs)
  obtain c ys where s: "scan_reverse f init xs = (c, ys)" by (cases "scan_reverse f init xs")
  have c: "c = (case ys of [] \<Rightarrow> init | y # _ \<Rightarrow> y)"
    using scan_reverse_carry [of f h init xs, OF assms] s by simp
  have l: "length ys = length xs" using scan_reverse_length [of f init xs] s by simp
  have step: "snd (scan_reverse f init (x # xs)) = h c x # ys"
    using s by (simp add: assms)
  have ys: "ys = snd (scan_reverse f init xs)" using s by simp
  have "(h c x # ys) ! t =
          h (if Suc t < length (x # xs) then (h c x # ys) ! Suc t else init) ((x # xs) ! t)"
  proof (cases t)
    case 0
    show ?thesis
    proof (cases ys)
      case Nil
      then show ?thesis using 0 c l by simp
    next
      case (Cons y ys')
      then show ?thesis using 0 c l by auto
    qed
  next
    case (Suc k)
    then have "k < length xs" using Cons.prems by simp
    from Cons.IH [OF this] show ?thesis using Suc l unfolding ys [symmetric] by simp
  qed
  then show ?case by (simp only: step)
qed

section \<open>The advantage scan, entry by entry\<close>

lemma gae_body_eq:
  "gae_body acc x =
     (vadd (fst x) (vmul (vmul (fst (snd x)) (snd (snd x))) acc),
      vadd (fst x) (vmul (vmul (fst (snd x)) (snd (snd x))) acc))"
  by (simp add: gae_body_def Let_def split: prod.splits)

lemma gae_scan:
  assumes d: "has_shape T B delta" and D: "has_shape T B disc" and L: "has_shape T B lams"
  defines "adv \<equiv> snd (scan_reverse gae_body (replicate B 0) (zip delta (zip disc lams)))"
  shows "has_shape T B adv"
    and "\<And>t b. t < T \<Longrightarrow> b < B \<Longrightarrow>
           adv ! t ! b = delta ! t ! b
             + disc ! t ! b * lams ! t ! b * (if Suc t < T then adv ! Suc t ! b else 0)"
proof -
  let ?xs = "zip delta (zip disc lams)"
  have ld: "length delta = T" "length disc = T" "length lams = T"
    using d D L by (simp_all add: has_shape_length)
  have rd: "length (delta ! t) = B" "length (disc ! t) = B" "length (lams ! t) = B"
    if "t < T" for t
    using d D L that by (simp_all add: has_shape_row)
  have lx: "length ?xs = T" by (simp add: ld)
  have la: "length adv = T" unfolding adv_def by (simp only: scan_reverse_length lx)
  have nth: "adv ! t =
      vadd (delta ! t) (vmul (vmul (disc ! t) (lams ! t))
        (if Suc t < T then adv ! Suc t else replicate B 0))" if "t < T" for t
  proof -
    have "adv ! t = (\<lambda>acc x. vadd (fst x) (vmul (vmul (fst (snd x)) (snd (snd x))) acc))
                      (if Suc t < length ?xs then adv ! Suc t else replicate B 0) (?xs ! t)"
      unfolding adv_def using that lx
      by (intro scan_reverse_nth) (simp_all add: gae_body_eq)
    then show ?thesis using that by (simp add: lx ld)
  qed
  have row: "length (adv ! t) = B" if "t < T" for t
    using that
  proof (induction "T - t" arbitrary: t)
    case 0
    then show ?case by simp
  next
    case (Suc k)
    have "Suc t < T \<Longrightarrow> length (adv ! Suc t) = B"
      using Suc by simp
    then show ?case
      using Suc.prems by (simp add: nth [OF Suc.prems] vadd_length vmul_length rd)
  qed
  show "has_shape T B adv" using la row by (simp add: has_shape_iff)
  fix t b assume t: "t < T" and b: "b < B"
  show "adv ! t ! b = delta ! t ! b
          + disc ! t ! b * lams ! t ! b * (if Suc t < T then adv ! Suc t ! b else 0)"
    using t b row [of "Suc t"]
    by (simp add: nth [OF t] vadd_nth vmul_nth vmul_length rd)
qed


lemma gae_time_major:
  fixes stop :: bool
  assumes T: "0 < T"
    and r: "has_shape T B r" and d: "has_shape T B d" and v: "has_shape (Suc T) B v"
    and l: "lam_shape T B lam"
  defines "res \<equiv> batch_truncated_generalized_advantage_estimation r d lam v stop True"
  shows "has_shape T B (fst res)" and "has_shape T B (snd res)"
    and "\<And>t b. t < T \<Longrightarrow> b < B \<Longrightarrow>
           fst res ! t ! b = (r ! t ! b + d ! t ! b * v ! Suc t ! b - v ! t ! b)
             + d ! t ! b * lam_at lam t b * (if Suc t < T then fst res ! Suc t ! b else 0)"
    and "\<And>t b. t < T \<Longrightarrow> b < B \<Longrightarrow> snd res ! t ! b = v ! t ! b + fst res ! t ! b"
proof -
  define lams where "lams = ones_like_times d lam"
  define delta where "delta = msub (madd r (mmul d (drop 1 v))) (butlast v)"
  define adv where
    "adv = snd (scan_reverse gae_body (replicate B 0) (zip delta (zip d lams)))"
  have b1: "shape1 r = B" using r T by (simp add: shape1_has_shape)
  have res: "res = (adv, madd (butlast v) adv)"
    by (simp add: res_def batch_truncated_generalized_advantage_estimation_def Let_def
        stop_gradient_def b1 adv_def delta_def lams_def)
  have ls: "has_shape T B lams" unfolding lams_def using d l by (rule ones_like_times_shape)
  have v1: "has_shape T B (drop 1 v)" using v by (rule drop1_shape)
  have v0: "has_shape T B (butlast v)" using v by (rule butlast_shape)
  have m: "has_shape T B (mmul d (drop 1 v))" using d v1 by (rule mmul_shape)
  have a: "has_shape T B (madd r (mmul d (drop 1 v)))" using r m by (rule madd_shape)
  have ds: "has_shape T B delta" unfolding delta_def using a v0 by (rule msub_shape)
  have as: "has_shape T B adv" unfolding adv_def using ds d ls by (rule gae_scan(1))
  have dn: "delta ! t ! b = r ! t ! b + d ! t ! b * v ! Suc t ! b - v ! t ! b"
    if "t < T" "b < B" for t b
  proof -
    have "delta ! t ! b = madd r (mmul d (drop 1 v)) ! t ! b - butlast v ! t ! b"
      unfolding delta_def using a v0 that by (rule msub_nth)
    also have "madd r (mmul d (drop 1 v)) ! t ! b = r ! t ! b + mmul d (drop 1 v) ! t ! b"
      using r m that by (rule madd_nth)
    also have "mmul d (drop 1 v) ! t ! b = d ! t ! b * drop 1 v ! t ! b"
      using d v1 that by (rule mmul_nth)
    also have "drop 1 v ! t = v ! Suc t"
      using that has_shape_length [OF v] by simp
    also have "butlast v ! t = v ! t"
      using that has_shape_length [OF v] by (simp add: nth_butlast)
    finally show ?thesis .
  qed
  have ln: "lams ! t ! b = lam_at lam t b" if "t < T" "b < B" for t b
    unfolding lams_def using d l that by (rule ones_like_times_nth)
  show "has_shape T B (fst res)" using as by (simp add: res)
  show "has_shape T B (snd res)" using madd_shape [OF v0 as] by (simp add: res)
  show "fst res ! t ! b = (r ! t ! b + d ! t ! b * v ! Suc t ! b - v ! t ! b)
          + d ! t ! b * lam_at lam t b * (if Suc t < T then fst res ! Suc t ! b else 0)"
    if "t < T" "b < B" for t b
    using gae_scan(2) [OF ds d ls that] that
    by (simp add: res adv_def [symmetric] dn ln)
  show "snd res ! t ! b = v ! t ! b + fst res ! t ! b" if "t < T" "b < B" for t b
    using that has_shape_length [OF v] by (simp add: res madd_nth [OF v0 as] nth_butlast)
qed

lemma gae_layout:
  assumes B: "0 < B" and T: "0 < T"
    and r: "has_shape B T r"
  shows "batch_truncated_generalized_advantage_estimation r d lam v stop False =
           (swapaxes (fst (batch_truncated_generalized_advantage_estimation
                             (swapaxes r) (swapaxes d) lam (swapaxes v) stop True)),
            swapaxes (snd (batch_truncated_generalized_advantage_estimation
                             (swapaxes r) (swapaxes d) lam (swapaxes v) stop True)))"
proof -
  have "has_shape T B (swapaxes r)" using r B by (rule swapaxes_shape)
  then have "shape1 (swapaxes r) = B" using T by (simp add: shape1_has_shape)
  moreover have "length r = B" using r by (rule has_shape_length)
  ultimately show ?thesis
    by (simp add: batch_truncated_generalized_advantage_estimation_def Let_def
        stop_gradient_def)
qed

lemma gae_batch_major:
  fixes stop :: bool
  assumes B: "0 < B" and T: "0 < T"
    and r: "has_shape B T r" and d: "has_shape B T d" and v: "has_shape B (Suc T) v"
    and l: "lam_shape T B lam"
  defines "res \<equiv> batch_truncated_generalized_advantage_estimation r d lam v stop False"
  shows "has_shape B T (fst res)" and "has_shape B T (snd res)"
    and "\<And>t b. t < T \<Longrightarrow> b < B \<Longrightarrow>
           fst res ! b ! t = (r ! b ! t + d ! b ! t * v ! b ! Suc t - v ! b ! t)
             + d ! b ! t * lam_at lam t b * (if Suc t < T then fst res ! b ! Suc t else 0)"
    and "\<And>t b. t < T \<Longrightarrow> b < B \<Longrightarrow> snd res ! b ! t = v ! b ! t + fst res ! b ! t"
proof -
  define tm where "tm = batch_truncated_generalized_advantage_estimation
                          (swapaxes r) (swapaxes d) lam (swapaxes v) stop True"
  have res: "res = (swapaxes (fst tm), swapaxes (snd tm))"
    unfolding res_def tm_def using B T r by (rule gae_layout)
  have r': "has_shape T B (swapaxes r)" using r B by (rule swapaxes_shape)
  have d': "has_shape T B (swapaxes d)" using d B by (rule swapaxes_shape)
  have v': "has_shape (Suc T) B (swapaxes v)" using v B by (rule swapaxes_shape)
  note tmf = gae_time_major [OF T r' d' v' l, where stop = stop, folded tm_def]
  show "has_shape B T (fst res)" using swapaxes_shape [OF tmf(1) T] by (simp add: res)
  show "has_shape B T (snd res)" using swapaxes_shape [OF tmf(2) T] by (simp add: res)
  show "fst res ! b ! t = (r ! b ! t + d ! b ! t * v ! b ! Suc t - v ! b ! t)
          + d ! b ! t * lam_at lam t b * (if Suc t < T then fst res ! b ! Suc t else 0)"
    if "t < T" "b < B" for t b
    using tmf(3) [OF that] that
    by (simp add: res swapaxes_nth [OF tmf(1)] swapaxes_nth [OF r] swapaxes_nth [OF d]
        swapaxes_nth [OF v])
  show "snd res ! b ! t = v ! b ! t + fst res ! b ! t" if "t < T" "b < B" for t b
    using tmf(4) [OF that] that
    by (simp add: res swapaxes_nth [OF tmf(1)] swapaxes_nth [OF tmf(2)] swapaxes_nth [OF v])
qed

section \<open>The off-policy scan, entry by entry\<close>

lemma off_policy_body_eq:
  "off_policy_body acc x =
     (vadd (fst x) (vmul (fst (snd x))
        (vadd (vsub (fst (snd (snd (snd x)))) (vmul (fst (snd (snd x))) (snd (snd (snd (snd x))))))
              (vmul (fst (snd (snd x))) acc))),
      vadd (fst x) (vmul (fst (snd x))
        (vadd (vsub (fst (snd (snd (snd x)))) (vmul (fst (snd (snd x))) (snd (snd (snd (snd x))))))
              (vmul (fst (snd (snd x))) acc))))"
  by (simp add: off_policy_body_def Let_def split: prod.splits)

lemma off_policy_scan:
  assumes r: "has_shape K B r" and d: "has_shape K B d" and c: "has_shape K B c"
    and v: "has_shape K B v" and q: "has_shape K B q" and g: "length g = B"
  defines "rets \<equiv> snd (scan_reverse off_policy_body g (zip r (zip d (zip c (zip v q)))))"
  shows "has_shape K B rets"
    and "\<And>t b. t < K \<Longrightarrow> b < B \<Longrightarrow>
           rets ! t ! b = r ! t ! b + d ! t ! b
             * (v ! t ! b - c ! t ! b * q ! t ! b
                + c ! t ! b * (if Suc t < K then rets ! Suc t ! b else g ! b))"
proof -
  let ?xs = "zip r (zip d (zip c (zip v q)))"
  have ld: "length r = K" "length d = K" "length c = K" "length v = K" "length q = K"
    using r d c v q by (simp_all add: has_shape_length)
  have rd: "length (r ! t) = B" "length (d ! t) = B" "length (c ! t) = B"
    "length (v ! t) = B" "length (q ! t) = B" if "t < K" for t
    using r d c v q that by (simp_all add: has_shape_row)
  have lx: "length ?xs = K" by (simp add: ld)
  have la: "length rets = K" unfolding rets_def by (simp only: scan_reverse_length lx)
  have nth: "rets ! t =
      vadd (r ! t) (vmul (d ! t) (vadd (vsub (v ! t) (vmul (c ! t) (q ! t)))
        (vmul (c ! t) (if Suc t < K then rets ! Suc t else g))))" if "t < K" for t
  proof -
    have "rets ! t =
        (\<lambda>acc x. vadd (fst x) (vmul (fst (snd x))
           (vadd (vsub (fst (snd (snd (snd x))))
                    (vmul (fst (snd (snd x))) (snd (snd (snd (snd x))))))
                 (vmul (fst (snd (snd x))) acc))))
          (if Suc t < length ?xs then rets ! Suc t else g) (?xs ! t)"
      unfolding rets_def using that lx
      by (intro scan_reverse_nth) (simp_all add: off_policy_body_eq)
    then show ?thesis using that by (simp add: lx ld)
  qed
  have row: "length (rets ! t) = B" if "t < K" for t
    using that
  proof (induction "K - t" arbitrary: t)
    case 0
    then show ?case by simp
  next
    case (Suc k)
    have "Suc t < K \<Longrightarrow> length (rets ! Suc t) = B"
      using Suc by simp
    then show ?case
      using Suc.prems g
      by (simp add: nth [OF Suc.prems] vadd_length vmul_length vsub_length rd)
  qed
  show "has_shape K B rets" using la row by (simp add: has_shape_iff)
  fix t b assume t: "t < K" and b: "b < B"
  show "rets ! t ! b = r ! t ! b + d ! t ! b
          * (v ! t ! b - c ! t ! b * q ! t ! b
             + c ! t ! b * (if Suc t < K then rets ! Suc t ! b else g ! b))"
    using t b g row [of "Suc t"]
    by (simp add: nth [OF t] vadd_nth vmul_nth vsub_nth vadd_length vmul_length vsub_length rd)
qed

lemma snoc_shape: "has_shape m n xs \<Longrightarrow> length x = n \<Longrightarrow> has_shape (Suc m) n (xs @ [x])"
  by (simp add: has_shape_def)

lemma off_policy_returns:
  fixes stop :: bool
  assumes B: "0 < B"
    and q: "has_shape B K q" and v: "has_shape B (Suc K) v" and r: "has_shape B (Suc K) r"
    and d: "has_shape B (Suc K) d" and c: "has_shape B K c"
  shows "\<exists>g. batch_general_off_policy_returns_from_q_and_v q v r d c stop = Inr g
           \<and> has_shape B (Suc K) g
           \<and> (\<forall>b<B. g ! b ! K = r ! b ! K + d ! b ! K * v ! b ! K
                \<and> (\<forall>t<K. g ! b ! t
                      = r ! b ! t + d ! b ! t
                        * (v ! b ! t - c ! b ! t * q ! b ! t + c ! b ! t * g ! b ! Suc t)))"
proof -
  define Q V R D C where "Q = swapaxes q" and "V = swapaxes v" and "R = swapaxes r"
    and "D = swapaxes d" and "C = swapaxes c"
  have Q: "has_shape K B Q" and V: "has_shape (Suc K) B V" and R: "has_shape (Suc K) B R"
    and D: "has_shape (Suc K) B D" and C: "has_shape K B C"
    unfolding Q_def V_def R_def D_def C_def using q v r d c B by (simp_all add: swapaxes_shape)
  have ne: "R \<noteq> []" "D \<noteq> []" "V \<noteq> []"
    using has_shape_length [OF R] has_shape_length [OF D] has_shape_length [OF V] by auto
  have lastn: "last R = R ! K" "last D = D ! K" "last V = V ! K"
    using has_shape_length [OF R] has_shape_length [OF D] has_shape_length [OF V] ne
    by (simp_all add: last_conv_nth)
  define g0 where "g0 = vadd (last R) (vmul (last D) (last V))"
  have rowK: "length (R ! K) = B" "length (D ! K) = B" "length (V ! K) = B"
    using R D V by (simp_all add: has_shape_row)
  have g0l: "length g0 = B" by (simp add: g0_def lastn vadd_length vmul_length rowK)
  have g0n: "g0 ! b = R ! K ! b + D ! K ! b * V ! K ! b" if "b < B" for b
    using that by (simp add: g0_def lastn vadd_nth vmul_nth vmul_length rowK)
  define rets where "rets = snd (scan_reverse off_policy_body g0
      (zip (butlast R) (zip (butlast D) (zip C (zip (butlast V) Q)))))"
  have R0: "has_shape K B (butlast R)" and D0: "has_shape K B (butlast D)"
    and V0: "has_shape K B (butlast V)"
    using R D V by (simp_all add: butlast_shape)
  note sc = off_policy_scan [OF R0 D0 C V0 Q g0l, folded rets_def]
  define G where "G = rets @ [g0]"
  have G: "has_shape (Suc K) B G" unfolding G_def using sc(1) g0l by (rule snoc_shape)
  have lr: "length rets = K" using sc(1) by (rule has_shape_length)
  have GK: "G ! K = g0" by (simp add: G_def lr nth_append)
  have Gt: "G ! t = rets ! t" if "t < K" for t using that by (simp add: G_def lr nth_append)
  have bl: "butlast R ! t = R ! t" "butlast D ! t = D ! t" "butlast V ! t = V ! t"
    if "t < K" for t
    using that has_shape_length [OF R] has_shape_length [OF D] has_shape_length [OF V]
    by (simp_all add: nth_butlast)
  have Gn: "G ! t ! b = R ! t ! b + D ! t ! b
              * (V ! t ! b - C ! t ! b * Q ! t ! b + C ! t ! b * G ! Suc t ! b)"
    if "t < K" "b < B" for t b
  proof (cases "Suc t < K")
    case True
    then show ?thesis using sc(2) [OF that] that by (simp add: Gt bl)
  next
    case False
    then have "Suc t = K" using that by simp
    then show ?thesis using sc(2) [OF that] that by (simp add: Gt GK [symmetric] bl)
  qed
  have res: "batch_general_off_policy_returns_from_q_and_v q v r d c stop = Inr (swapaxes G)"
    using ne
    by (simp add: batch_general_off_policy_returns_from_q_and_v_def Let_def select_def
        stop_gradient_def Q_def [symmetric] V_def [symmetric] R_def [symmetric]
        D_def [symmetric] C_def [symmetric] g0_def [symmetric] rets_def [symmetric]
        G_def [symmetric])
  have sG: "has_shape B (Suc K) (swapaxes G)" using G by (simp add: swapaxes_shape)
  have "swapaxes G ! b ! K = r ! b ! K + d ! b ! K * v ! b ! K" if b: "b < B" for b
    using b by (simp add: swapaxes_nth [OF G] GK g0n R_def D_def V_def
        swapaxes_nth [OF r] swapaxes_nth [OF d] swapaxes_nth [OF v])
  moreover have "swapaxes G ! b ! t = r ! b ! t + d ! b ! t
            * (v ! b ! t - c ! b ! t * q ! b ! t + c ! b ! t * swapaxes G ! b ! Suc t)"
    if b: "b < B" and t: "t < K" for b t
    using b t Gn [OF t b]
    by (simp add: swapaxes_nth [OF G] R_def D_def V_def C_def Q_def
        swapaxes_nth [OF r] swapaxes_nth [OF d] swapaxes_nth [OF v]
        swapaxes_nth [OF c] swapaxes_nth [OF q])
  ultimately show ?thesis using res sG by (intro exI [of _ "swapaxes G"]) simp
qed

section \<open>The retrace mixing weights\<close>

lemma times_lam_shape:
  "has_shape m n x \<Longrightarrow> lam_shape m n l \<Longrightarrow> has_shape m n (times_lam x l)"
  by (cases l) (simp_all add: has_shape_iff mmul_def vmul_length)

lemma times_lam_nth:
  "has_shape m n x \<Longrightarrow> lam_shape m n l \<Longrightarrow> i < m \<Longrightarrow> j < n \<Longrightarrow>
   times_lam x l ! i ! j = x ! i ! j * lam_at l i j"
  by (cases l) (simp_all add: has_shape_iff mmul_def vmul_nth)

lemma retrace_weights:
  assumes "has_shape B K log_rhos" and "lam_shape B K lam"
  defines "c \<equiv> times_lam (map (map (\<lambda>x. min 1 (exp x))) log_rhos) lam"
  shows "has_shape B K c"
    and "\<And>b t. b < B \<Longrightarrow> t < K \<Longrightarrow> c ! b ! t = min 1 (exp (log_rhos ! b ! t)) * lam_at lam b t"
proof -
  have m: "has_shape B K (map (map (\<lambda>x. min 1 (exp x))) log_rhos)"
    using assms(1) by (simp add: has_shape_iff)
  show "has_shape B K c" unfolding c_def using m assms(2) by (rule times_lam_shape)
  fix b t assume "b < B" "t < K"
  then show "c ! b ! t = min 1 (exp (log_rhos ! b ! t)) * lam_at lam b t"
    unfolding c_def using assms(1)
    by (simp add: times_lam_nth [OF m assms(2)] has_shape_iff)
qed

section \<open>The n-step loop, entry by entry\<close>

lemma n_step_fails:
  assumes "n \<le> 1"
  shows "batch_n_step_bootstrapped_returns r_t discount_t v_t n lambda_t stop
           = Inl (if swapaxes v_t = [] then IndexError else TypeError)"
proof -
  have "py_repeat x (min (n - 1) k) = []" if "0 \<le> k" for x :: vec and k
    using assms that by (simp add: py_repeat_def)
  then show ?thesis
    by (simp add: batch_n_step_bootstrapped_returns_def Let_def bind_def jnp_array_def)
qed

lemma slice_shape:
  "has_shape m n xs \<Longrightarrow> i + k \<le> m \<Longrightarrow> has_shape k n (slice xs i k)"
  by (simp add: has_shape_iff slice_def)

lemma slice_nth: "has_shape m n xs \<Longrightarrow> i + k \<le> m \<Longrightarrow> t < k \<Longrightarrow> slice xs i k ! t = xs ! (i + t)"
  by (simp add: has_shape_iff slice_def)

lemma one_minus_shape: "has_shape m n x \<Longrightarrow> has_shape m n (one_minus x)"
  by (simp add: has_shape_iff one_minus_def)

lemma one_minus_nth:
  "has_shape m n x \<Longrightarrow> i < m \<Longrightarrow> j < n \<Longrightarrow> one_minus x ! i ! j = 1 - x ! i ! j"
  by (simp add: has_shape_iff one_minus_def)

lemma n_step_update:
  assumes r: "has_shape T B r" and d: "has_shape T B d" and l: "has_shape T B l"
    and v: "has_shape T B v" and g: "has_shape T B g"
  defines "u \<equiv> madd r (mmul d (madd (mmul (one_minus l) v) (mmul l g)))"
  shows "has_shape T B u"
    and "\<And>t b. t < T \<Longrightarrow> b < B \<Longrightarrow>
           u ! t ! b = r ! t ! b + d ! t ! b
             * ((1 - l ! t ! b) * v ! t ! b + l ! t ! b * g ! t ! b)"
proof -
  have o: "has_shape T B (one_minus l)" using l by (rule one_minus_shape)
  have a: "has_shape T B (mmul (one_minus l) v)" using o v by (rule mmul_shape)
  have b: "has_shape T B (mmul l g)" using l g by (rule mmul_shape)
  have c: "has_shape T B (madd (mmul (one_minus l) v) (mmul l g))" using a b by (rule madd_shape)
  have e: "has_shape T B (mmul d (madd (mmul (one_minus l) v) (mmul l g)))"
    using d c by (rule mmul_shape)
  show "has_shape T B u" unfolding u_def using r e by (rule madd_shape)
  fix t b assume "t < T" "b < B"
  then show "u ! t ! b = r ! t ! b + d ! t ! b
             * ((1 - l ! t ! b) * v ! t ! b + l ! t ! b * g ! t ! b)"
    by (simp add: u_def madd_nth [OF r e] mmul_nth [OF d c] madd_nth [OF a b]
        mmul_nth [OF o v] mmul_nth [OF l g] one_minus_nth [OF l])
qed

lemma n_step_return_shift:
  "n_step_return r d l v boot (Suc k) j =
     n_step_return r d l v
       (r (j + k) + d (j + k) * ((1 - l (j + k)) * v (j + k) + l (j + k) * boot)) k j"
  by (induction k arbitrary: j) simp_all

lemma n_step_loop_entries:
  assumes r: "has_shape (T + m) B r" and d: "has_shape (T + m) B d"
    and l: "has_shape (T + m) B l" and v: "has_shape (T + m) B v"
  shows "k \<le> Suc m \<Longrightarrow> has_shape T B g \<Longrightarrow>
         has_shape T B (n_step_loop k T r d l v g)
         \<and> (\<forall>t<T. \<forall>b<B. n_step_loop k T r d l v g ! t ! b =
               n_step_return (\<lambda>j. r ! j ! b) (\<lambda>j. d ! j ! b) (\<lambda>j. l ! j ! b) (\<lambda>j. v ! j ! b)
                 (g ! t ! b) k t)"
proof (induction k arbitrary: g)
  case 0
  then show ?case by simp
next
  case (Suc i)
  have i: "i + T \<le> T + m" using Suc.prems(1) by simp
  let ?u = "madd (slice r i T) (mmul (slice d i T)
              (madd (mmul (one_minus (slice l i T)) (slice v i T)) (mmul (slice l i T) g)))"
  note sh = slice_shape [OF r i] slice_shape [OF d i] slice_shape [OF l i] slice_shape [OF v i]
  note up = n_step_update [OF sh Suc.prems(2)]
  have "i \<le> Suc m" using Suc.prems(1) by simp
  from Suc.IH [OF this up(1)]
  have IH: "has_shape T B (n_step_loop i T r d l v ?u)"
    "\<And>t b. t < T \<Longrightarrow> b < B \<Longrightarrow> n_step_loop i T r d l v ?u ! t ! b =
       n_step_return (\<lambda>j. r ! j ! b) (\<lambda>j. d ! j ! b) (\<lambda>j. l ! j ! b) (\<lambda>j. v ! j ! b)
         (?u ! t ! b) i t"
    by blast+
  have step: "n_step_loop (Suc i) T r d l v g = n_step_loop i T r d l v ?u"
    by (simp add: Let_def)
  have "n_step_loop i T r d l v ?u ! t ! b =
          n_step_return (\<lambda>j. r ! j ! b) (\<lambda>j. d ! j ! b) (\<lambda>j. l ! j ! b) (\<lambda>j. v ! j ! b)
            (g ! t ! b) (Suc i) t" if "t < T" "b < B" for t b
    unfolding n_step_return_shift IH(2) [OF that] up(2) [OF that]
    using that by (simp add: slice_nth [OF r i] slice_nth [OF d i] slice_nth [OF l i]
        slice_nth [OF v i] add.commute)
  then show ?case using IH(1) unfolding step by blast
qed

lemma n_step_return_cong:
  "(\<And>i. j \<le> i \<Longrightarrow> i < j + k \<Longrightarrow> r i = r' i \<and> d i = d' i \<and> l i = l' i \<and> v i = v' i) \<Longrightarrow>
   n_step_return r d l v boot k j = n_step_return r' d' l' v' boot k j"
proof (induction k arbitrary: j)
  case 0
  then show ?case by simp
next
  case (Suc k)
  have "n_step_return r d l v boot k (Suc j) = n_step_return r' d' l' v' boot k (Suc j)"
    by (rule Suc.IH) (use Suc.prems in simp)
  moreover have "r j = r' j \<and> d j = d' j \<and> l j = l' j \<and> v j = v' j"
    by (rule Suc.prems) simp_all
  ultimately show ?case by simp
qed

lemma append_shape:
  "has_shape a n xs \<Longrightarrow> has_shape b n ys \<Longrightarrow> has_shape (a + b) n (xs @ ys)"
  by (simp add: has_shape_def)

lemma replicate_shape: "length row = n \<Longrightarrow> has_shape m n (replicate m row)"
  by (simp add: has_shape_def list_all_length)

lemma n_step_returns:
  fixes stop :: bool
  assumes B: "0 < B" and T: "0 < T"
    and r: "has_shape B T r" and d: "has_shape B T d" and v: "has_shape B T v"
    and lam: "lam_shape T B lam" and n: "2 \<le> n"
  shows "\<exists>g. batch_n_step_bootstrapped_returns r d v n lam stop = Inr g
           \<and> has_shape B T g
           \<and> (\<forall>b<B. \<forall>t<T. g ! b ! t =
                 n_step_return (padded T 0 (\<lambda>j. r ! b ! j)) (padded T 1 (\<lambda>j. d ! b ! j))
                   (padded T 1 (\<lambda>j. lam_at lam j b)) (padded_last T (\<lambda>j. v ! b ! j))
                   (padded_last T (\<lambda>j. v ! b ! j) (t + nat n - 1)) (nat n) t)"
proof -
  define m where "m = nat (n - 1)"
  have m: "0 < m" "nat n = Suc m" "n - 1 = int m" using n by (simp_all add: m_def)
  define R D V L where "R = swapaxes r" and "D = swapaxes d" and "V = swapaxes v"
    and "L = ones_like_times D lam"
  have R: "has_shape T B R" and D: "has_shape T B D" and V: "has_shape T B V"
    unfolding R_def D_def V_def using r d v B by (simp_all add: swapaxes_shape)
  have L: "has_shape T B L" unfolding L_def using D lam by (rule ones_like_times_shape)
  have lenR: "length R = T" using R by (rule has_shape_length)
  have lenV: "length V = T" using V by (rule has_shape_length)
  have b1: "shape1 R = B" using R T by (rule shape1_has_shape)
  have Vne: "V \<noteq> []" using lenV T by auto
  have lastV: "last V = V ! (T - 1)" using Vne lenV by (simp add: last_conv_nth)
  have lastl: "length (last V) = B" unfolding lastV using V T by (simp add: has_shape_row)
  define g0 where "g0 = drop m V @ replicate (min m T) (last V)"
  define R' D' L' V' where "R' = R @ replicate m (replicate B 0)"
    and "D' = D @ replicate m (replicate B 1)"
    and "L' = L @ replicate m (replicate B 1)"
    and "V' = V @ replicate m (last V)"
  have pr: "py_repeat (last V) (min (int m) (int T)) = replicate (min m T) (last V)"
    by (simp add: py_repeat_def min_def)
  have c1: "concatenate (slice_from V (n - 1))
              (jnp_array (py_repeat (last V) (min (n - 1) (int T)))) = Inr g0"
    using m(1) T by (simp add: pr jnp_array_def slice_from_def m(3) g0_def)
  have c2: "concatenate V (jnp_array (py_repeat (last V) (n - 1))) = Inr V'"
    using m(1) by (simp add: py_repeat_def jnp_array_def m(3) V'_def)
  have f: "jnp_full (n - 1) B c = Inr (replicate m (replicate B c))" for c
    by (simp add: jnp_full_def m(3))
  define G where "G = n_step_loop (Suc m) T R' D' L' V' g0"
  have res: "batch_n_step_bootstrapped_returns r d v n lam stop = Inr (swapaxes G)"
    using Vne
    by (simp add: batch_n_step_bootstrapped_returns_def Let_def R_def [symmetric]
        D_def [symmetric] V_def [symmetric] L_def [symmetric] lenR b1 c1 c2 f bind_def
        select_def stop_gradient_def m(2) G_def R'_def D'_def L'_def V'_def
        del: n_step_loop.simps)
  have R's: "has_shape (T + m) B R'" unfolding R'_def
    by (intro append_shape R replicate_shape) simp
  have D's: "has_shape (T + m) B D'" unfolding D'_def
    by (intro append_shape D replicate_shape) simp
  have L's: "has_shape (T + m) B L'" unfolding L'_def
    by (intro append_shape L replicate_shape) simp
  have V's: "has_shape (T + m) B V'" unfolding V'_def
    by (intro append_shape V replicate_shape lastl)
  have g0s: "has_shape T B g0"
  proof -
    have "has_shape (T - m) B (drop m V)" using V by (simp add: has_shape_iff)
    moreover have "has_shape (min m T) B (replicate (min m T) (last V))"
      using lastl by (rule replicate_shape)
    ultimately have "has_shape (T - m + min m T) B g0"
      unfolding g0_def by (rule append_shape)
    moreover have "T - m + min m T = T" by simp
    ultimately show ?thesis by simp
  qed
  have g0t: "g0 ! t = (if t + m < T then V ! (t + m) else V ! (T - 1))" if "t < T" for t
  proof (cases "t + m < T")
    case True
    then have "t < T - m" by simp
    then show ?thesis using True by (simp add: g0_def nth_append lenV add.commute)
  next
    case False
    then have "t - (T - m) < min m T" and "\<not> t < T - m" using that by auto
    then show ?thesis using False by (simp add: g0_def nth_append lenV lastV)
  qed
  have g0n: "g0 ! t ! b = padded_last T (\<lambda>j. v ! b ! j) (t + m)" if "t < T" "b < B" for t b
    using that T
    by (simp add: g0t padded_last_def V_def swapaxes_nth [OF v])
  have ent: "R ! j ! b = r ! b ! j" "D ! j ! b = d ! b ! j" "V ! j ! b = v ! b ! j"
    "L ! j ! b = lam_at lam j b" if "j < T" "b < B" for j b
    using that
    by (simp_all add: R_def D_def V_def swapaxes_nth [OF r] swapaxes_nth [OF d]
        swapaxes_nth [OF v] L_def ones_like_times_nth [OF D [unfolded D_def] lam])
  have lens: "length R = T" "length D = T" "length L = T" "length V = T"
    using R D L V by (simp_all add: has_shape_length)
  have pads: "R' ! j ! b = padded T 0 (\<lambda>j. r ! b ! j) j
      \<and> D' ! j ! b = padded T 1 (\<lambda>j. d ! b ! j) j
      \<and> L' ! j ! b = padded T 1 (\<lambda>j. lam_at lam j b) j
      \<and> V' ! j ! b = padded_last T (\<lambda>j. v ! b ! j) j" if "j < T + m" "b < B" for j b
  proof (cases "j < T")
    case True
    then show ?thesis
      using that
      by (simp add: R'_def D'_def L'_def V'_def nth_append padded_def padded_last_def
          lens ent)
  next
    case False
    then show ?thesis
      using that T
      by (simp add: R'_def D'_def L'_def V'_def nth_append padded_def padded_last_def
          lens lastV ent)
  qed
  note loop = n_step_loop_entries [OF R's D's L's V's order_refl g0s, folded G_def]
  have Gs: "has_shape T B G" using loop by blast
  have Gn: "G ! t ! b =
      n_step_return (padded T 0 (\<lambda>j. r ! b ! j)) (padded T 1 (\<lambda>j. d ! b ! j))
        (padded T 1 (\<lambda>j. lam_at lam j b)) (padded_last T (\<lambda>j. v ! b ! j))
        (padded_last T (\<lambda>j. v ! b ! j) (t + m)) (Suc m) t" if "t < T" "b < B" for t b
  proof -
    have "G ! t ! b =
        n_step_return (\<lambda>j. R' ! j ! b) (\<lambda>j. D' ! j ! b) (\<lambda>j. L' ! j ! b) (\<lambda>j. V' ! j ! b)
          (g0 ! t ! b) (Suc m) t"
      using loop that by blast
    also have "\<dots> = n_step_return (padded T 0 (\<lambda>j. r ! b ! j)) (padded T 1 (\<lambda>j. d ! b ! j))
        (padded T 1 (\<lambda>j. lam_at lam j b)) (padded_last T (\<lambda>j. v ! b ! j))
        (g0 ! t ! b) (Suc m) t"
      by (rule n_step_return_cong) (use that pads in simp)
    finally show ?thesis by (simp only: g0n [OF that])
  qed
  have "has_shape B T (swapaxes G)" using Gs T by (rule swapaxes_shape)
  moreover have "swapaxes G ! b ! t =
      n_step_return (padded T 0 (\<lambda>j. r ! b ! j)) (padded T 1 (\<lambda>j. d ! b ! j))
        (padded T 1 (\<lambda>j. lam_at lam j b)) (padded_last T (\<lambda>j. v ! b ! j))
        (padded_last T (\<lambda>j. v ! b ! j) (t + nat n - 1)) (nat n) t" if "b < B" "t < T" for t b
    using that Gn [OF that(2,1)] by (simp add: swapaxes_nth [OF Gs] m(2))
  ultimately show ?thesis using res by (intro exI [of _ "swapaxes G"]) simp
qed

lemma n_step_return_split:
  "n_step_return r d l v boot (a + b) j =
     n_step_return r d l v (n_step_return r d l v boot b (j + a)) a j"
  by (induction a arbitrary: j) simp_all

lemma n_step_return_past_end:
  "T \<le> j \<Longrightarrow>
   n_step_return (padded T 0 r) (padded T 1 d) (padded T 1 l) v' boot k j = boot"
  by (induction k arbitrary: j) (simp_all add: padded_def)

lemma n_step_return_truncated:
  assumes "t < T"
  shows "n_step_return (padded T 0 r) (padded T 1 d) (padded T 1 l) (padded_last T v) boot k t
         = n_step_return r d l v boot (min k (T - t)) t"
proof (cases "k \<le> T - t")
  case True
  then have "min k (T - t) = k" by simp
  moreover have "n_step_return (padded T 0 r) (padded T 1 d) (padded T 1 l) (padded_last T v)
                   boot k t = n_step_return r d l v boot k t"
    by (rule n_step_return_cong) (use True assms in \<open>auto simp: padded_def padded_last_def\<close>)
  ultimately show ?thesis by simp
next
  case False
  then have k: "k = (T - t) + (k - (T - t))" and mn: "min k (T - t) = T - t" by simp_all
  have "n_step_return (padded T 0 r) (padded T 1 d) (padded T 1 l) (padded_last T v) boot k t
        = n_step_return (padded T 0 r) (padded T 1 d) (padded T 1 l) (padded_last T v)
            (n_step_return (padded T 0 r) (padded T 1 d) (padded T 1 l) (padded_last T v)
               boot (k - (T - t)) (t + (T - t))) (T - t) t"
    by (subst k) (rule n_step_return_split)
  also have "\<dots> = n_step_return (padded T 0 r) (padded T 1 d) (padded T 1 l) (padded_last T v)
                     boot (T - t) t"
    using assms by (simp add: n_step_return_past_end)
  also have "\<dots> = n_step_return r d l v boot (T - t) t"
    by (rule n_step_return_cong) (use assms in \<open>auto simp: padded_def padded_last_def\<close>)
  finally show ?thesis by (simp add: mn)
qed

lemma n_step_returns_truncated:
  fixes stop :: bool
  assumes B: "0 < B" and T: "0 < T"
    and r: "has_shape B T r" and d: "has_shape B T d" and v: "has_shape B T v"
    and lam: "lam_shape T B lam" and n: "2 \<le> n"
  shows "\<exists>g. batch_n_step_bootstrapped_returns r d v n lam stop = Inr g
           \<and> has_shape B T g
           \<and> (\<forall>b<B. \<forall>t<T. g ! b ! t =
                 n_step_return (\<lambda>j. r ! b ! j) (\<lambda>j. d ! b ! j) (\<lambda>j. lam_at lam j b)
                   (\<lambda>j. v ! b ! j) (v ! b ! (min (t + nat n) T - 1)) (min (nat n) (T - t)) t)"
proof -
  from n_step_returns [OF assms, where stop = stop] obtain g
    where g: "batch_n_step_bootstrapped_returns r d v n lam stop = Inr g"
      and gs: "has_shape B T g"
      and gn: "\<forall>b<B. \<forall>t<T. g ! b ! t =
                 n_step_return (padded T 0 (\<lambda>j. r ! b ! j)) (padded T 1 (\<lambda>j. d ! b ! j))
                   (padded T 1 (\<lambda>j. lam_at lam j b)) (padded_last T (\<lambda>j. v ! b ! j))
                   (padded_last T (\<lambda>j. v ! b ! j) (t + nat n - 1)) (nat n) t"
    by blast
  have "g ! b ! t =
          n_step_return (\<lambda>j. r ! b ! j) (\<lambda>j. d ! b ! j) (\<lambda>j. lam_at lam j b)
            (\<lambda>j. v ! b ! j) (v ! b ! (min (t + nat n) T - 1)) (min (nat n) (T - t)) t"
    if "b < B" "t < T" for b t
  proof -
    have "padded_last T (\<lambda>j. v ! b ! j) (t + nat n - 1) = v ! b ! (min (t + nat n) T - 1)"
      using n that by (auto simp: padded_last_def min_def)
    then show ?thesis using gn that by (simp add: n_step_return_truncated)
  qed
  then show ?thesis using g gs by blast
qed

section \<open>The gradient-stop flag and the worked example\<close>

lemma n_step_stop_irrelevant:
  "batch_n_step_bootstrapped_returns r d v n lam stop
     = batch_n_step_bootstrapped_returns r d v n lam True"
  by (simp add: batch_n_step_bootstrapped_returns_def Let_def select_def stop_gradient_def)

lemma gae_stop_irrelevant:
  "batch_truncated_generalized_advantage_estimation r d lam v stop tm
     = batch_truncated_generalized_advantage_estimation r d lam v True tm"
  by (simp add: batch_truncated_generalized_advantage_estimation_def Let_def stop_gradient_def)

lemma n_step_spec_example:
  "batch_n_step_bootstrapped_returns [[1, 1, 1, 1]] [[1, 1, 1, 1]] [[0, 0, 0, 0]] 10
     (Scalar 1) True = Inr [[4, 3, 2, 1]]"
  by code_simp

lemma gae_concrete:
  "batch_truncated_generalized_advantage_estimation [[1, 1, 1]] [[9/10, 9/10, 9/10]]
     (Scalar 1) [[0, 0, 0, 0]] True False
   = ([[271/100, 19/10, 1]], [[271/100, 19/10, 1]])"
  by code_simp

text \<open>
  With one \<open>lambda_\<close>, a scalar or a time-leading array, given to both calls, the two
  layouts agree.
\<close>

lemma gae_layout_same_lambda:
  fixes stop :: bool
  assumes "0 < B" and "0 < T"
    and "has_shape B T r_t" and "has_shape B T discount_t"
    and "has_shape B (Suc T) values" and "lam_shape T B lambda'"
  shows "batch_truncated_generalized_advantage_estimation
           (swapaxes r_t) (swapaxes discount_t) lambda' (swapaxes values) stop True
         = (swapaxes (fst (batch_truncated_generalized_advantage_estimation
                             r_t discount_t lambda' values stop False)),
            swapaxes (snd (batch_truncated_generalized_advantage_estimation
                             r_t discount_t lambda' values stop False)))"
proof -
  let ?tm = "batch_truncated_generalized_advantage_estimation
               (swapaxes r_t) (swapaxes discount_t) lambda' (swapaxes values) stop True"
  have r': "has_shape T B (swapaxes r_t)" using assms(3,1) by (rule swapaxes_shape)
  have d': "has_shape T B (swapaxes discount_t)" using assms(4,1) by (rule swapaxes_shape)
  have v': "has_shape (Suc T) B (swapaxes values)" using assms(5,1) by (rule swapaxes_shape)
  have a: "has_shape T B (fst ?tm)" using assms(2) r' d' v' assms(6) by (rule gae_time_major(1))
  have t: "has_shape T B (snd ?tm)" using assms(2) r' d' v' assms(6) by (rule gae_time_major(2))
  have "swapaxes (swapaxes (fst ?tm)) = fst ?tm" using a assms(2,1) by (rule swapaxes_swapaxes)
  moreover have "swapaxes (swapaxes (snd ?tm)) = snd ?tm"
    using t assms(2,1) by (rule swapaxes_swapaxes)
  ultimately show ?thesis
    by (simp add: gae_layout [OF assms(1,2,3)])
qed

section \<open>Results\<close>

subsection \<open>Total timestep checker\<close>

text \<open>
  C10.  \<open>check_total_timesteps\<close> returns the configuration it was given with one field
  rewritten.  When \<open>arch.total_timesteps\<close> is \<open>None\<close> (and \<open>arch.num_updates\<close> is a number) it
  becomes \<open>n_devices * num_updates * rollout_length * update_batch_size * num_envs\<close>.
  Otherwise, the divisors being non-zero, \<open>arch.total_timesteps\<close> stays and
  \<open>arch.num_updates\<close> becomes \<open>total_timesteps\<close> floor-divided by \<open>rollout_length\<close>, then
  \<open>update_batch_size\<close>, then \<open>num_envs\<close>, then \<open>n_devices\<close>.
\<close>

theorem check_total_timesteps_rewrites:
  fixes config :: "('a, 's, 'c) config_scheme"
  shows "(total_timesteps (arch config) = None \<and> num_updates (arch config) = Some u \<longrightarrow>
            check_total_timesteps n_devices config =
              Inr (config\<lparr>arch := (arch config)\<lparr>total_timesteps :=
                     Some (int n_devices * u * rollout_length (system config)
                           * update_batch_size (system config) * num_envs (arch config))\<rparr>\<rparr>,
                   []))
       \<and> (total_timesteps (arch config) = Some t \<and> rollout_length (system config) \<noteq> 0
            \<and> update_batch_size (system config) \<noteq> 0 \<and> num_envs (arch config) \<noteq> 0
            \<and> n_devices \<noteq> 0 \<longrightarrow>
            check_total_timesteps n_devices config =
              Inr (config\<lparr>arch := (arch config)\<lparr>num_updates :=
                     Some (t div rollout_length (system config)
                           div update_batch_size (system config)
                           div num_envs (arch config) div int n_devices)\<rparr>\<rparr>,
                   [ChangingNumUpdates
                      (t div rollout_length (system config)
                       div update_batch_size (system config)
                       div num_envs (arch config) div int n_devices)]))"
  by (simp add: check_total_timesteps_def bind_def floordiv_def)

theorem check_total_timesteps_rewrites_witness:
  "check_total_timesteps 2
     \<lparr>arch = \<lparr>total_timesteps = None, num_updates = Some 10, num_envs = 4\<rparr>,
      system = \<lparr>rollout_length = 8, update_batch_size = 1\<rparr>\<rparr>
   = Inr (\<lparr>arch = \<lparr>total_timesteps = Some 640, num_updates = Some 10, num_envs = 4\<rparr>,
           system = \<lparr>rollout_length = 8, update_batch_size = 1\<rparr>\<rparr>, [])
   \<and> fst (projr (check_total_timesteps 2
     \<lparr>arch = \<lparr>total_timesteps = Some 1000, num_updates = None, num_envs = 4\<rparr>,
      system = \<lparr>rollout_length = 8, update_batch_size = 1\<rparr>\<rparr>))
   = \<lparr>arch = \<lparr>total_timesteps = Some 1000, num_updates = Some 15, num_envs = 4\<rparr>,
      system = \<lparr>rollout_length = 8, update_batch_size = 1\<rparr>\<rparr>"
  using check_total_timesteps_rewrites
    [of "\<lparr>arch = \<lparr>total_timesteps = None, num_updates = Some 10, num_envs = 4\<rparr>,
          system = \<lparr>rollout_length = 8, update_batch_size = 1\<rparr>\<rparr>" 10 2 0,
     THEN conjunct1]
    check_total_timesteps_rewrites
    [of "\<lparr>arch = \<lparr>total_timesteps = Some 1000, num_updates = None, num_envs = 4\<rparr>,
          system = \<lparr>rollout_length = 8, update_batch_size = 1\<rparr>\<rparr>" 0 2 1000,
     THEN conjunct2]
  by simp

subsection \<open>Truncated generalized advantage estimation\<close>

text \<open>
  C2.  The recursion \<open>A t = \<delta> t + d t * \<lambda> t * A (t + 1)\<close> fails for a per-step \<open>lambda_\<close> laid
  out like the rewards and discounts in the default batch-leading call: \<open>r_t\<close>, \<open>discount_t\<close>
  and \<open>values\<close> are swapped to time-leading, \<open>lambda_\<close> is not, and it is multiplied with
  the swapped \<open>discount_t\<close>, so batch row \<open>b\<close> at step \<open>t\<close> gets \<open>lambda_[t][b]\<close> in place of
  \<open>lambda_[b][t]\<close>.  On the input below, with two rows of two steps, the advantage of row 1
  at step 0 is \<open>4\<close>, computed with \<open>lambda_[0][1] = 0\<close>, where the recursion with
  \<open>lambda_[1][0] = 1\<close> gives \<open>9\<close>.
\<close>

theorem gae_per_step_lambda_read_transposed:
  "fst (batch_truncated_generalized_advantage_estimation [[1, 2], [3, 4]] [[1/2, 1/4], [1, 1]]
          (PerStep [[1, 0], [1, 1]]) [[3, 4, 5], [6, 7, 8]] True False) ! 1 ! 0 = 4
   \<and> ([[1, 2], [3, 4]] ! 1 ! 0 + [[1/2, 1/4], [1, 1]] ! 1 ! 0 * [[3, 4, 5], [6, 7, 8]] ! 1 ! 1
        - [[3, 4, 5], [6, 7, 8]] ! 1 ! 0)
       + [[1/2, 1/4], [1, 1]] ! 1 ! 0 * [[1, 0], [1, 1]] ! 1 ! 0
         * fst (batch_truncated_generalized_advantage_estimation [[1, 2], [3, 4]]
                  [[1/2, 1/4], [1, 1]] (PerStep [[1, 0], [1, 1]]) [[3, 4, 5], [6, 7, 8]]
                  True False) ! 1 ! 1
       = (9::real)"
  by code_simp

text \<open>
  C7.  With \<open>lambda_ = 0\<close> the advantages are the one-step residuals
  \<open>r t + d t * v (t + 1) - v t\<close> at every step of every batch row.
\<close>

theorem gae_lambda_zero_is_td_residual:
  fixes stop :: bool
  assumes "0 < B" and "0 < T"
    and "has_shape B T r_t" and "has_shape B T discount_t"
    and "has_shape B (Suc T) values"
  shows "\<forall>b<B. \<forall>t<T.
           fst (batch_truncated_generalized_advantage_estimation
                  r_t discount_t (Scalar 0) values stop False) ! b ! t
             = r_t ! b ! t + discount_t ! b ! t * values ! b ! Suc t - values ! b ! t"
proof (intro allI impI)
  fix b t assume "b < B" "t < T"
  have "lam_shape T B (Scalar 0)" by simp
  from gae_batch_major(3) [OF assms this \<open>t < T\<close> \<open>b < B\<close>, where stop = stop]
  show "fst (batch_truncated_generalized_advantage_estimation
                  r_t discount_t (Scalar 0) values stop False) ! b ! t
             = r_t ! b ! t + discount_t ! b ! t * values ! b ! Suc t - values ! b ! t"
    by simp
qed

theorem gae_lambda_zero_is_td_residual_witness:
  "fst (batch_truncated_generalized_advantage_estimation
          [[1, 2], [3, 4]] [[1/2, 1/4], [1, 1]] (Scalar 0) [[3, 4, 5], [6, 7, 8]]
          False False) ! 1 ! 0
     = 3 + 1 * 7 - 6"
proof -
  have "0 < (2::nat)" and "0 < (2::nat)"
    and "has_shape 2 2 [[1, 2], [3, 4]]" and "has_shape 2 2 [[1/2, 1/4], [1, 1]]"
    and "has_shape 2 (Suc 2) [[3, 4, 5], [6, 7, 8]]"
    by (simp_all add: has_shape_def)
  from gae_lambda_zero_is_td_residual [OF this, where stop = False, rule_format, of 1 0]
  show ?thesis by simp
qed

text \<open>
  C8.  Layout invariance fails for a per-step \<open>lambda_\<close> that is transposed together with
  the trajectory: the time-leading call reads it entry by entry, the batch-leading call
  reads it transposed, since it swaps every input but \<open>lambda_\<close>.  On the input below the
  advantage of batch row 1 at step 0 is \<open>9\<close> in the time-leading call on the transposed
  arrays and \<open>4\<close> in the transpose of the batch-leading call's result, so the two results
  are different arrays.
\<close>

theorem gae_layout_differs_for_per_step_lambda:
  "fst (batch_truncated_generalized_advantage_estimation
          (swapaxes [[1, 2], [3, 4]]) (swapaxes [[1/2, 1/4], [1, 1]])
          (PerStep (swapaxes [[1, 0], [1, 1]])) (swapaxes [[3, 4, 5], [6, 7, 8]])
          True True) ! 0 ! 1 = 9
   \<and> swapaxes (fst (batch_truncated_generalized_advantage_estimation
                      [[1, 2], [3, 4]] [[1/2, 1/4], [1, 1]] (PerStep [[1, 0], [1, 1]])
                      [[3, 4, 5], [6, 7, 8]] True False)) ! 0 ! 1 = 4
   \<and> batch_truncated_generalized_advantage_estimation
          (swapaxes [[1, 2], [3, 4]]) (swapaxes [[1/2, 1/4], [1, 1]])
          (PerStep (swapaxes [[1, 0], [1, 1]])) (swapaxes [[3, 4, 5], [6, 7, 8]])
          True True
       \<noteq> (swapaxes (fst (batch_truncated_generalized_advantage_estimation
                            [[1, 2], [3, 4]] [[1/2, 1/4], [1, 1]] (PerStep [[1, 0], [1, 1]])
                            [[3, 4, 5], [6, 7, 8]] True False)),
           swapaxes (snd (batch_truncated_generalized_advantage_estimation
                            [[1, 2], [3, 4]] [[1/2, 1/4], [1, 1]] (PerStep [[1, 0], [1, 1]])
                            [[3, 4, 5], [6, 7, 8]] True False)))"
proof -
  let ?tm = "batch_truncated_generalized_advantage_estimation
          (swapaxes [[1, 2], [3, 4]]) (swapaxes [[1/2, 1/4], [1, 1]])
          (PerStep (swapaxes [[1, 0], [1, 1]])) (swapaxes [[3, 4, 5], [6, 7, 8]])
          True True"
  let ?bm = "batch_truncated_generalized_advantage_estimation
                      [[1, 2], [3, 4]] [[1/2, 1/4], [1, 1]] (PerStep [[1, 0], [1, 1]])
                      [[3, 4, 5], [6, 7, 8]] True False"
  have a: "fst ?tm ! 0 ! 1 = 9" by code_simp
  have b: "swapaxes (fst ?bm) ! 0 ! 1 = 4" by code_simp
  have "?tm \<noteq> (swapaxes (fst ?bm), swapaxes (snd ?bm))"
  proof
    assume "?tm = (swapaxes (fst ?bm), swapaxes (snd ?bm))"
    then have "fst ?tm = swapaxes (fst ?bm)" by simp
    with a b show False by simp
  qed
  with a b show ?thesis by blast
qed

subsection \<open>Generalized off-policy returns and retrace\<close>

text \<open>
  C1.  For \<open>q\<close> and \<open>c\<close> of shape \<open>B \<times> (K - 1)\<close> and \<open>v\<close>, \<open>r\<close>, \<open>d\<close> of shape \<open>B \<times> K\<close>,
  \<open>batch_general_off_policy_returns_from_q_and_v\<close> returns an array \<open>g\<close> of shape
  \<open>B \<times> K\<close> whose last column is the terminal estimate \<open>r K + d K * v K\<close>, in which neither
  \<open>c\<close> nor \<open>q\<close> occurs, and whose earlier columns obey the backward recursion
  \<open>g t = r (t + 1) + d (t + 1) * (v (t + 1) - c (t + 1) * q (t + 1) + c (t + 1) * g (t + 1))\<close>.
  Column \<open>t\<close> of an input holds its time \<open>t + 1\<close>; the theorem writes \<open>K\<close> for \<open>K - 1\<close>.
\<close>

theorem off_policy_returns_recursion:
  fixes stop :: bool
  assumes "0 < B"
    and "has_shape B K q_t" and "has_shape B (Suc K) v_t" and "has_shape B (Suc K) r_t"
    and "has_shape B (Suc K) discount_t" and "has_shape B K c_t"
  shows "\<exists>g. batch_general_off_policy_returns_from_q_and_v q_t v_t r_t discount_t c_t stop
               = Inr g
           \<and> has_shape B (Suc K) g
           \<and> (\<forall>b<B. g ! b ! K = r_t ! b ! K + discount_t ! b ! K * v_t ! b ! K
                \<and> (\<forall>t<K. g ! b ! t
                      = r_t ! b ! t + discount_t ! b ! t
                        * (v_t ! b ! t - c_t ! b ! t * q_t ! b ! t
                           + c_t ! b ! t * g ! b ! Suc t)))"
  using assms by (rule off_policy_returns)

theorem off_policy_returns_recursion_witness:
  "\<exists>g. batch_general_off_policy_returns_from_q_and_v
          [[1, 2], [3, 4]] [[1, 2, 3], [4, 5, 6]] [[1, 1, 1], [2, 2, 2]]
          [[1/2, 1/2, 1/2], [1, 1, 1]] [[1, 1/2], [0, 1]] False = Inr g
      \<and> g ! 0 ! 2 = 1 + 1/2 * 3
      \<and> g ! 0 ! 1 = 1 + 1/2 * (2 - 1/2 * 2 + 1/2 * g ! 0 ! 2)
      \<and> g ! 1 ! 0 = 2 + 1 * (4 - 0 * 3 + 0 * g ! 1 ! 1)"
proof -
  have "0 < (2::nat)" and "has_shape 2 2 [[1, 2], [3, 4]]"
    and "has_shape 2 (Suc 2) [[1, 2, 3], [4, 5, 6]]"
    and "has_shape 2 (Suc 2) [[1, 1, 1], [2, 2, 2]]"
    and "has_shape 2 (Suc 2) [[1/2, 1/2, 1/2], [1, 1, 1]]"
    and "has_shape 2 2 [[1, 1/2], [0, 1]]"
    by (simp_all add: has_shape_def)
  from off_policy_returns_recursion [OF this, where stop = False]
  obtain g where g: "batch_general_off_policy_returns_from_q_and_v
          [[1, 2], [3, 4]] [[1, 2, 3], [4, 5, 6]] [[1, 1, 1], [2, 2, 2]]
          [[1/2, 1/2, 1/2], [1, 1, 1]] [[1, 1/2], [0, 1]] False = Inr g"
    and a: "\<forall>b<2. g ! b ! 2 = [[1, 1, 1], [2, 2, 2]] ! b ! 2
               + [[1/2, 1/2, 1/2], [1, 1, 1]] ! b ! 2 * [[1, 2, 3], [4, 5, 6]] ! b ! 2
             \<and> (\<forall>t<2. g ! b ! t = [[1, 1, 1], [2, 2, 2]] ! b ! t
                   + [[1/2, 1/2, 1/2], [1, 1, 1]] ! b ! t
                     * ([[1, 2, 3], [4, 5, 6]] ! b ! t
                        - [[1, 1/2], [0, 1]] ! b ! t * [[1, 2], [3, 4]] ! b ! t
                        + [[1, 1/2], [0, 1]] ! b ! t * g ! b ! Suc t))"
    by blast
  from a [rule_format, of 0, THEN conjunct1] a [rule_format, of 0, THEN conjunct2, rule_format, of 1]
    a [rule_format, of 1, THEN conjunct2, rule_format, of 0]
  have "g ! 0 ! 2 = 1 + 1/2 * 3
      \<and> g ! 0 ! 1 = 1 + 1/2 * (2 - 1/2 * 2 + 1/2 * g ! 0 ! 2)
      \<and> g ! 1 ! 0 = 2 + 1 * (4 - 0 * 3 + 0 * g ! 1 ! 1)"
    by (simp add: numeral_2_eq_2)
  with g show ?thesis by blast
qed

text \<open>
  C4.  \<open>batch_retrace_continuous\<close> returns the generalized off-policy return, computed by
  \<open>batch_general_off_policy_returns_from_q_and_v\<close> with the mixing weights
  \<open>c t = min 1 (exp (log_rho t)) * lambda\<close>, minus the stale Q-values \<open>q_tm1\<close>, entry by
  entry, whatever \<open>stop_target_gradients\<close> is.
\<close>

theorem retrace_is_off_policy_return_minus_q:
  fixes stop :: bool
  assumes "0 < B"
    and "has_shape B (Suc K) q_tm1" and "has_shape B K q_t" and "has_shape B (Suc K) v_t"
    and "has_shape B (Suc K) r_t" and "has_shape B (Suc K) discount_t"
    and "has_shape B K log_rhos" and "lam_shape B K lambda'"
    and "has_shape B K c_t"
    and "\<forall>b<B. \<forall>t<K. c_t ! b ! t = min 1 (exp (log_rhos ! b ! t)) * lam_at lambda' b t"
  shows "\<exists>g e. batch_general_off_policy_returns_from_q_and_v q_t v_t r_t discount_t c_t False
                 = Inr g
           \<and> batch_retrace_continuous q_tm1 q_t v_t r_t discount_t log_rhos lambda' stop
                 = Inr e
           \<and> has_shape B (Suc K) e
           \<and> (\<forall>b<B. \<forall>t<Suc K. e ! b ! t = g ! b ! t - q_tm1 ! b ! t)"
proof -
  define c where "c = times_lam (map (map (\<lambda>x. min 1 (exp x))) log_rhos) lambda'"
  have cs: "has_shape B K c" unfolding c_def using assms(7,8) by (rule retrace_weights(1))
  have "c = c_t"
  proof (rule mat_eqI [OF cs assms(9)])
    fix i j assume "i < B" "j < K"
    then show "c ! i ! j = c_t ! i ! j"
      using retrace_weights(2) [OF assms(7,8), of i j] assms(10) by (simp add: c_def)
  qed
  obtain g where g: "batch_general_off_policy_returns_from_q_and_v q_t v_t r_t discount_t c False
                       = Inr g"
    and gs: "has_shape B (Suc K) g"
    using off_policy_returns [OF assms(1,3,4,5,6) cs, where stop = False] by blast
  have e: "batch_retrace_continuous q_tm1 q_t v_t r_t discount_t log_rhos lambda' stop
             = Inr (msub g q_tm1)"
    using g
    by (simp add: batch_retrace_continuous_def Let_def bind_def select_def stop_gradient_def
        c_def [symmetric])
  have "has_shape B (Suc K) (msub g q_tm1)" using gs assms(2) by (rule msub_shape)
  moreover have "\<forall>b<B. \<forall>t<Suc K. msub g q_tm1 ! b ! t = g ! b ! t - q_tm1 ! b ! t"
    using msub_nth [OF gs assms(2)] by blast
  ultimately show ?thesis using g e \<open>c = c_t\<close> by blast
qed

theorem retrace_is_off_policy_return_minus_q_witness:
  "\<exists>g e. batch_general_off_policy_returns_from_q_and_v
            [[1, 2]] [[1, 2, 3]] [[1, 1, 1]] [[1/2, 1/2, 1/2]] [[1/3, 1/4]] False = Inr g
      \<and> batch_retrace_continuous [[5, 6, 7]] [[1, 2]] [[1, 2, 3]] [[1, 1, 1]]
            [[1/2, 1/2, 1/2]] [[0, 1]] (PerStep [[1/3, 1/4]]) True = Inr e
      \<and> e ! 0 ! 0 = g ! 0 ! 0 - 5 \<and> e ! 0 ! 2 = g ! 0 ! 2 - 7"
proof -
  have "0 < (1::nat)" and "has_shape 1 (Suc 2) [[5, 6, 7]]" and "has_shape 1 2 [[1, 2]]"
    and "has_shape 1 (Suc 2) [[1, 2, 3]]" and "has_shape 1 (Suc 2) [[1, 1, 1]]"
    and "has_shape 1 (Suc 2) [[1/2, 1/2, 1/2]]" and "has_shape 1 2 [[0, 1]]"
    and "lam_shape 1 2 (PerStep [[1/3, 1/4]])" and "has_shape 1 2 [[1/3, 1/4]]"
    and "\<forall>b<1. \<forall>t<2. [[1/3, 1/4]] ! b ! t
           = min 1 (exp ([[0, 1]] ! b ! t)) * lam_at (PerStep [[1/3, 1/4]]) b t"
    by (simp_all add: has_shape_def numeral_2_eq_2 less_Suc_eq)
  from retrace_is_off_policy_return_minus_q [OF this, where stop = True]
  obtain g e where "batch_general_off_policy_returns_from_q_and_v
            [[1, 2]] [[1, 2, 3]] [[1, 1, 1]] [[1/2, 1/2, 1/2]] [[1/3, 1/4]] False = Inr g"
    and "batch_retrace_continuous [[5, 6, 7]] [[1, 2]] [[1, 2, 3]] [[1, 1, 1]]
            [[1/2, 1/2, 1/2]] [[0, 1]] (PerStep [[1/3, 1/4]]) True = Inr e"
    and a: "\<forall>b<1. \<forall>t<Suc 2. e ! b ! t = g ! b ! t - [[5, 6, 7]] ! b ! t"
    by blast
  moreover from a [rule_format, of 0 0] a [rule_format, of 0 2]
  have "e ! 0 ! 0 = g ! 0 ! 0 - 5 \<and> e ! 0 ! 2 = g ! 0 ! 2 - 7" by simp
  ultimately show ?thesis by blast
qed

subsection \<open>N-step bootstrapped returns\<close>

text \<open>
  C3.  For \<open>n \<ge> 2\<close> and inputs of shape \<open>B \<times> T\<close>, the target at column \<open>t\<close> is the recursion
  \<open>n_step_return\<close> over the real rewards, discounts, lambdas and values only, unrolled
  \<open>min n (T - t)\<close> times and bootstrapped from \<open>v (t + n)\<close>, or from the last value when the
  lookahead runs past the end: the padding (zero reward, unit discount and lambda, last
  value repeated) adds nothing but that repeated last value.  For rewards \<open>[1,1,1,1]\<close>,
  discounts \<open>1\<close>, values \<open>0\<close> and \<open>n = 10\<close> the targets are \<open>[4,3,2,1]\<close>, the sums of the
  remaining rewards.
\<close>

theorem n_step_padding_repeats_last_value:
  "(0 < B \<and> 0 < T \<and> has_shape B T r_t \<and> has_shape B T discount_t \<and> has_shape B T v_t
      \<and> lam_shape T B lambda_t \<and> 2 \<le> n \<longrightarrow>
      (\<exists>g. batch_n_step_bootstrapped_returns r_t discount_t v_t n lambda_t stop = Inr g
         \<and> has_shape B T g
         \<and> (\<forall>b<B. \<forall>t<T. g ! b ! t =
               n_step_return (\<lambda>j. r_t ! b ! j) (\<lambda>j. discount_t ! b ! j)
                 (\<lambda>j. lam_at lambda_t j b) (\<lambda>j. v_t ! b ! j)
                 (v_t ! b ! (min (t + nat n) T - 1)) (min (nat n) (T - t)) t)))
   \<and> batch_n_step_bootstrapped_returns [[1, 1, 1, 1]] [[1, 1, 1, 1]] [[0, 0, 0, 0]] 10
       (Scalar 1) stop = Inr [[4, 3, 2, 1]]"
proof (intro conjI impI)
  assume "0 < B \<and> 0 < T \<and> has_shape B T r_t \<and> has_shape B T discount_t \<and> has_shape B T v_t
      \<and> lam_shape T B lambda_t \<and> 2 \<le> n"
  then show "\<exists>g. batch_n_step_bootstrapped_returns r_t discount_t v_t n lambda_t stop = Inr g
         \<and> has_shape B T g
         \<and> (\<forall>b<B. \<forall>t<T. g ! b ! t =
               n_step_return (\<lambda>j. r_t ! b ! j) (\<lambda>j. discount_t ! b ! j)
                 (\<lambda>j. lam_at lambda_t j b) (\<lambda>j. v_t ! b ! j)
                 (v_t ! b ! (min (t + nat n) T - 1)) (min (nat n) (T - t)) t)"
    by (intro n_step_returns_truncated) simp_all
next
  show "batch_n_step_bootstrapped_returns [[1, 1, 1, 1]] [[1, 1, 1, 1]] [[0, 0, 0, 0]] 10
       (Scalar 1) stop = Inr [[4, 3, 2, 1]]"
    by (subst n_step_stop_irrelevant) (rule n_step_spec_example)
qed

theorem n_step_padding_repeats_last_value_witness:
  "\<exists>g. batch_n_step_bootstrapped_returns [[1, 2, 3], [4, 5, 6]] [[1/2, 1/2, 1/2], [1, 1, 1]]
          [[10, 20, 30], [1, 2, 3]] 2 (Scalar (1/2)) True = Inr g
      \<and> g ! 0 ! 0 = 13/2 \<and> g ! 0 ! 2 = 18 \<and> g ! 1 ! 1 = 21/2"
proof -
  have "0 < (2::nat) \<and> 0 < (3::nat) \<and> has_shape 2 3 [[1, 2, 3], [4, 5, 6]]
      \<and> has_shape 2 3 [[1/2, 1/2, 1/2], [1, 1, 1]] \<and> has_shape 2 3 [[10, 20, 30], [1, 2, 3]]
      \<and> lam_shape 3 2 (Scalar (1/2)) \<and> (2::int) \<le> 2"
    by (simp add: has_shape_def)
  from n_step_padding_repeats_last_value [where stop = True, THEN conjunct1, rule_format, OF this]
  obtain g where g: "batch_n_step_bootstrapped_returns [[1, 2, 3], [4, 5, 6]]
          [[1/2, 1/2, 1/2], [1, 1, 1]] [[10, 20, 30], [1, 2, 3]] 2 (Scalar (1/2)) True = Inr g"
    and a: "\<forall>b<2. \<forall>t<3. g ! b ! t =
               n_step_return (\<lambda>j. [[1, 2, 3], [4, 5, 6]] ! b ! j)
                 (\<lambda>j. [[1/2, 1/2, 1/2], [1, 1, 1]] ! b ! j)
                 (\<lambda>j. lam_at (Scalar (1/2)) j b) (\<lambda>j. [[10, 20, 30], [1, 2, 3]] ! b ! j)
                 ([[10, 20, 30], [1, 2, 3]] ! b ! (min (t + nat 2) 3 - 1))
                 (min (nat 2) (3 - t)) t"
    by blast
  from a [rule_format, of 0 0] a [rule_format, of 0 2] a [rule_format, of 1 1]
  have "g ! 0 ! 0 = 13/2 \<and> g ! 0 ! 2 = 18 \<and> g ! 1 ! 1 = 21/2"
    by (simp add: eval_nat_numeral)
  with g show ?thesis by blast
qed

text \<open>
  C5.  On the trajectory with rewards \<open>[[1,1,1]]\<close>, discounts \<open>[[0.9,0.9,0.9]]\<close>, values
  \<open>[[0,0,0,0]]\<close> and \<open>lambda = 1\<close>, the advantages of the generalized advantage estimation and
  the n-step returns for every \<open>n\<close> that covers the horizon (\<open>n \<ge> 3\<close>, bootstrapping from the
  values \<open>[[0,0,0]]\<close> at times 1 to 3) are the same discounted sums of the remaining rewards,
  \<open>[[2.71, 1.9, 1]]\<close>.
\<close>

theorem gae_lambda_one_matches_full_horizon_n_step:
  "fst (batch_truncated_generalized_advantage_estimation [[1, 1, 1]] [[9/10, 9/10, 9/10]]
          (Scalar 1) [[0, 0, 0, 0]] stop False) = [[271/100, 19/10, 1]]
   \<and> (3 \<le> n \<longrightarrow>
        batch_n_step_bootstrapped_returns [[1, 1, 1]] [[9/10, 9/10, 9/10]] [[0, 0, 0]] n
          (Scalar 1) stop' = Inr [[271/100, 19/10, 1]])"
proof (intro conjI impI)
  show "fst (batch_truncated_generalized_advantage_estimation [[1, 1, 1]] [[9/10, 9/10, 9/10]]
          (Scalar 1) [[0, 0, 0, 0]] stop False) = [[271/100, 19/10, 1]]"
    by (subst gae_stop_irrelevant) (simp add: gae_concrete)
next
  assume n: "3 \<le> n"
  let ?r = "[[1, 1, 1]] :: mat" and ?d = "[[9/10, 9/10, 9/10]] :: mat"
    and ?v = "[[0, 0, 0]] :: mat"
  have "0 < (1::nat)" and "0 < (3::nat)" and "has_shape 1 3 ?r" and "has_shape 1 3 ?d"
    and "has_shape 1 3 ?v" and "lam_shape 3 1 (Scalar 1)" and "2 \<le> n"
    using n by (simp_all add: has_shape_def)
  from n_step_returns_truncated [OF this, where stop = stop'] obtain g
    where g: "batch_n_step_bootstrapped_returns ?r ?d ?v n (Scalar 1) stop' = Inr g"
      and gs: "has_shape 1 3 g"
      and gn: "\<And>t. t < 3 \<Longrightarrow> g ! 0 ! t =
                 n_step_return (\<lambda>j. ?r ! 0 ! j) (\<lambda>j. ?d ! 0 ! j) (\<lambda>j. lam_at (Scalar 1) j 0)
                   (\<lambda>j. ?v ! 0 ! j) (?v ! 0 ! (min (t + nat n) 3 - 1)) (min (nat n) (3 - t)) t"
    by auto
  have mn: "min (t + nat n) 3 = 3" "min (nat n) (3 - t) = 3 - t" for t
    using n by simp_all
  have e: "g ! 0 ! t =
      n_step_return (\<lambda>j. ?r ! 0 ! j) (\<lambda>j. ?d ! 0 ! j) (\<lambda>j. lam_at (Scalar 1) j 0)
        (\<lambda>j. ?v ! 0 ! j) (?v ! 0 ! (3 - 1)) (3 - t) t" if "t < 3" for t
    using gn [OF that] by (simp only: mn)
  have g0: "g ! 0 ! 0 = 271/100" using e [of 0] by (simp add: eval_nat_numeral)
  have g1: "g ! 0 ! 1 = 19/10" using e [of 1] by (simp add: eval_nat_numeral)
  have g2: "g ! 0 ! 2 = 1" using e [of 2] by (simp add: eval_nat_numeral)
  have "g = [[271/100, 19/10, 1]]"
  proof (rule mat_eqI [OF gs])
    show "has_shape 1 3 [[271/100, 19/10, 1]]" by (simp add: has_shape_def)
    fix i j :: nat assume "i < 1" "j < 3"
    then have i: "i = 0" and j: "j = 0 \<or> j = 1 \<or> j = 2" by auto
    from j show "g ! i ! j = [[271/100, 19/10, 1]] ! i ! j"
      unfolding i using g0 g1 g2 by auto
  qed
  with g show "batch_n_step_bootstrapped_returns ?r ?d ?v n (Scalar 1) stop'
                 = Inr [[271/100, 19/10, 1]]"
    by simp
qed

theorem gae_lambda_one_matches_full_horizon_n_step_witness:
  "fst (batch_truncated_generalized_advantage_estimation [[1, 1, 1]] [[9/10, 9/10, 9/10]]
          (Scalar 1) [[0, 0, 0, 0]] True False) = [[271/100, 19/10, 1]]
   \<and> batch_n_step_bootstrapped_returns [[1, 1, 1]] [[9/10, 9/10, 9/10]] [[0, 0, 0]] 3
        (Scalar 1) True = Inr [[271/100, 19/10, 1]]"
  using gae_lambda_one_matches_full_horizon_n_step [of True 3 True] by simp

text \<open>
  C6.  With \<open>n = 1\<close> the function returns no array: \<open>[v_t[-1]] * 0\<close> is the empty list,
  \<open>jnp.array\<close> makes a rank-one array of it, and \<open>jnp.concatenate\<close> refuses to join it to the
  rank-two \<open>v_t[0:]\<close>.  The one-step bootstrap \<open>r (t + 1) + d (t + 1) * v (t + 1)\<close> is never
  computed, on the input below or on any other.
\<close>

theorem n_step_with_one_step_raises:
  "batch_n_step_bootstrapped_returns [[1, 2, 3]] [[1, 1, 1]] [[4, 5, 6]] 1 (Scalar 1) True
     = Inl TypeError
   \<and> (batch_n_step_bootstrapped_returns r_t discount_t v_t 1 lambda_t stop = Inl IndexError
      \<or> batch_n_step_bootstrapped_returns r_t discount_t v_t 1 lambda_t stop = Inl TypeError)"
proof
  have "swapaxes [[4, 5, 6]] \<noteq> []" by (simp add: swapaxes_def shape1_def)
  then show "batch_n_step_bootstrapped_returns [[1, 2, 3]] [[1, 1, 1]] [[4, 5, 6]] 1
               (Scalar 1) True = Inl TypeError"
    by (simp add: n_step_fails)
next
  show "batch_n_step_bootstrapped_returns r_t discount_t v_t 1 lambda_t stop = Inl IndexError
      \<or> batch_n_step_bootstrapped_returns r_t discount_t v_t 1 lambda_t stop = Inl TypeError"
    by (simp add: n_step_fails)
qed

text \<open>
  C9.  The function has no check of \<open>n\<close>, and a non-positive step count is not reported as
  such.  On the input below the call with \<open>n = 0\<close> stops with the rank error of
  \<open>jnp.concatenate\<close>, raised while the padded targets are built, and that is the very outcome
  of the call with the admissible \<open>n = 1\<close>: the failure does not tell the step count apart.
\<close>

theorem n_step_zero_fails_like_one_step:
  "batch_n_step_bootstrapped_returns [[1, 2, 3]] [[1, 1, 1]] [[4, 5, 6]] 0 (Scalar 1) True
     = Inl TypeError
   \<and> batch_n_step_bootstrapped_returns [[1, 2, 3]] [[1, 1, 1]] [[4, 5, 6]] 0 (Scalar 1) True
     = batch_n_step_bootstrapped_returns [[1, 2, 3]] [[1, 1, 1]] [[4, 5, 6]] 1 (Scalar 1) True"
proof -
  have "swapaxes [[4, 5, 6]] \<noteq> []" by (simp add: swapaxes_def shape1_def)
  then show ?thesis by (simp add: n_step_fails)
qed

text \<open>
  C9, as amended.  A call with a non-positive step count yields no result: for every input
  and every \<open>n \<le> 0\<close> it stops with an error of the array library, the \<open>IndexError\<close> of
  \<open>v_t[-1]\<close> on an empty time axis or the \<open>TypeError\<close> of \<open>jnp.concatenate\<close> on arrays of
  different rank, raised by the first statement that uses \<open>n\<close>.
\<close>

theorem n_step_non_positive_raises:
  assumes "n \<le> 0"
  shows "batch_n_step_bootstrapped_returns r_t discount_t v_t n lambda_t stop = Inl IndexError
       \<or> batch_n_step_bootstrapped_returns r_t discount_t v_t n lambda_t stop = Inl TypeError"
  using assms by (simp add: n_step_fails)

theorem n_step_non_positive_raises_witness:
  "batch_n_step_bootstrapped_returns [[1, 2, 3]] [[1, 1, 1]] [[4, 5, 6]] 0 (Scalar 1) True
     = Inl TypeError
   \<and> batch_n_step_bootstrapped_returns [[1, 2, 3]] [[1, 1, 1]] [[4, 5, 6]] (- 2) (Scalar 1)
       False = Inl TypeError"
proof -
  have ne: "swapaxes [[4, 5, 6]] \<noteq> []" by (simp add: swapaxes_def shape1_def)
  have ie: "batch_n_step_bootstrapped_returns [[1, 2, 3]] [[1, 1, 1]] [[4, 5, 6]] 0 (Scalar 1)
              True \<noteq> Inl IndexError"
    "batch_n_step_bootstrapped_returns [[1, 2, 3]] [[1, 1, 1]] [[4, 5, 6]] (- 2) (Scalar 1)
       False \<noteq> Inl IndexError"
    using ne by (simp_all add: n_step_fails)
  have "(0::int) \<le> 0" and "(- 2::int) \<le> 0" by simp_all
  from n_step_non_positive_raises [OF this(1), of "[[1, 2, 3]]" "[[1, 1, 1]]" "[[4, 5, 6]]"
      "Scalar 1" True]
    n_step_non_positive_raises [OF this(2), of "[[1, 2, 3]]" "[[1, 1, 1]]" "[[4, 5, 6]]"
      "Scalar 1" False]
  show ?thesis using ie by blast
qed

end
